theory Spec2Isabelle
  imports Main
begin

section \<open>Canonical transactions\<close>

text \<open>
  The importer builds \<^verbatim>\<open>ynab.models.NewTransaction\<close> objects and fills in the fields
  \<^verbatim>\<open>account_id\<close>, \<^verbatim>\<open>var_date\<close>, \<^verbatim>\<open>payee_name\<close>, \<^verbatim>\<open>amount\<close>, \<^verbatim>\<open>cleared\<close> and \<^verbatim>\<open>import_id\<close>.
  A field the code never sets stays \<^verbatim>\<open>None\<close>. Every path of the importer sets
  \<^verbatim>\<open>var_date\<close> and \<^verbatim>\<open>amount\<close> before the transaction is appended to the batch, so these
  two are not optional here. \<^verbatim>\<open>var_date\<close> is a \<^verbatim>\<open>datetime.date\<close>, \<^verbatim>\<open>amount\<close> a Python int.
\<close>

record pydate =
  year :: nat
  month :: nat
  day :: nat

datatype TransactionClearedStatus = CLEARED | UNCLEARED

record NewTransaction =
  account_id :: "string option"
  var_date :: pydate
  payee_name :: "string option"
  amount :: int
  cleared :: "TransactionClearedStatus option"
  import_id :: "string option"

section \<open>Rendering of integers and dates\<close>

text \<open>\<^verbatim>\<open>str(n)\<close> for a natural number: its decimal digits, most significant first.\<close>

definition digit_char :: "nat \<Rightarrow> char" where
  "digit_char d = ''0123456789'' ! d"

function str_nat :: "nat \<Rightarrow> string" where
  "str_nat n = (if n < 10 then [digit_char n] else str_nat (n div 10) @ [digit_char (n mod 10)])"
  by pat_completeness auto
termination
  by (relation "measure (\<lambda>n. n)") auto

declare str_nat.simps [simp del]

text \<open>\<^verbatim>\<open>str(i)\<close> for a Python int.\<close>

definition str_int :: "int \<Rightarrow> string" where
  "str_int i = (if i < 0 then CHR ''-'' # str_nat (nat (- i)) else str_nat (nat i))"

text \<open>\<^verbatim>\<open>'%0wd' % n\<close>: decimal digits, padded with zeros on the left to width \<open>w\<close>.\<close>

definition zero_pad :: "nat \<Rightarrow> nat \<Rightarrow> string" where
  "zero_pad w n = replicate (w - length (str_nat n)) CHR ''0'' @ str_nat n"

text \<open>\<^verbatim>\<open>date.isoformat()\<close>, which is also \<^verbatim>\<open>str(date)\<close>: \<^verbatim>\<open>YYYY-MM-DD\<close>.\<close>

definition isoformat :: "pydate \<Rightarrow> string" where
  "isoformat d = zero_pad 4 (year d) @ ''-'' @ zero_pad 2 (month d) @ ''-'' @ zero_pad 2 (day d)"

section \<open>The identifier assigner: \<^verbatim>\<open>_populateImportIds\<close>\<close>

text \<open>
  \<^verbatim>\<open>f'UBS2YNAB:{other_t.amount}:{other_t.var_date}:{ordinal}'\<close>
\<close>

definition import_id_str :: "NewTransaction \<Rightarrow> nat \<Rightarrow> string" where
  "import_id_str other_t ordinal =
     ''UBS2YNAB:'' @ str_int (amount other_t) @ '':'' @ isoformat (var_date other_t)
       @ '':'' @ str_nat ordinal"

text \<open>
  \<^verbatim>\<open>not t.import_id\<close>: the identifier is \<^verbatim>\<open>None\<close> or the empty string.
\<close>

definition unassigned :: "NewTransaction \<Rightarrow> bool" where
  "unassigned t = (case import_id t of None \<Rightarrow> True | Some s \<Rightarrow> s = [])"

text \<open>
  \<^verbatim>\<open>[index for (index, item) in enumerate(transactions)
      if (item.var_date == t.var_date and item.amount == t.amount)]\<close>
\<close>

definition same_date_amount :: "NewTransaction \<Rightarrow> NewTransaction \<Rightarrow> bool" where
  "same_date_amount t item = (var_date item = var_date t \<and> amount item = amount t)"

definition same_date_amount_indicies :: "NewTransaction list \<Rightarrow> NewTransaction \<Rightarrow> nat list" where
  "same_date_amount_indicies transactions t =
     filter (\<lambda>index. same_date_amount t (transactions ! index)) [0..<length transactions]"

text \<open>
  The inner loop \<^verbatim>\<open>for (ordinal, t_index) in enumerate(same_date_amount_indicies)\<close>:
  the transaction at \<^verbatim>\<open>t_index\<close> is mutated in place. The first argument is the ordinal
  that \<^verbatim>\<open>enumerate\<close> has reached. Every index comes from the comprehension above, so it is
  within the list.
\<close>

fun assign_ordinals :: "nat \<Rightarrow> nat list \<Rightarrow> NewTransaction list \<Rightarrow> NewTransaction list" where
  "assign_ordinals ordinal [] transactions = transactions"
| "assign_ordinals ordinal (t_index # rest) transactions =
     assign_ordinals (Suc ordinal) rest
       (transactions[t_index :=
          (transactions ! t_index)\<lparr>import_id :=
             Some (import_id_str (transactions ! t_index) ordinal)\<rparr>])"

text \<open>
  One iteration of the outer loop \<^verbatim>\<open>for t in transactions\<close>, at position \<open>i\<close> of the list
  (the list keeps its length; only its elements are mutated, so the iterator visits the
  positions \<open>0, 1, ...\<close> and reads the current state of each element).
\<close>

definition populate_step :: "nat \<Rightarrow> NewTransaction list \<Rightarrow> NewTransaction list" where
  "populate_step i transactions =
     (let t = transactions ! i in
      if unassigned t
      then assign_ordinals 0 (rev (same_date_amount_indicies transactions t)) transactions
      else transactions)"

fun populate_loop :: "nat list \<Rightarrow> NewTransaction list \<Rightarrow> NewTransaction list" where
  "populate_loop [] transactions = transactions"
| "populate_loop (i # rest) transactions = populate_loop rest (populate_step i transactions)"

definition populateImportIds :: "NewTransaction list \<Rightarrow> NewTransaction list" where
  "populateImportIds transactions = populate_loop [0..<length transactions] transactions"

text \<open>
  Reading the ordinal back from an identifier, as the repository's tests do with
  \<^verbatim>\<open>int(t.import_id.split(':')[-1])\<close>.
\<close>

definition last_field :: "string \<Rightarrow> string" where
  "last_field s = rev (takeWhile (\<lambda>c. c \<noteq> CHR '':'') (rev s))"

definition nat_of_digits :: "string \<Rightarrow> nat" where
  "nat_of_digits s = foldl (\<lambda>acc c. 10 * acc + (of_char c - 48)) 0 s"

definition ordinal_of :: "NewTransaction \<Rightarrow> nat option" where
  "ordinal_of t = map_option (\<lambda>s. nat_of_digits (last_field s)) (import_id t)"

subsection \<open>What the assigner computes\<close>

text \<open>
  The ordinal the assigner gives position \<open>p\<close> of a newest-first batch: the number of
  later positions (older transactions) with the same date and amount.
\<close>

definition ordinal_at :: "NewTransaction list \<Rightarrow> nat \<Rightarrow> nat" where
  "ordinal_at ts p =
     length (filter (\<lambda>j. same_date_amount (ts ! p) (ts ! j)) [Suc p..<length ts])"

text \<open>
  After \<open>k\<close> iterations of the outer loop, the group of position \<open>p\<close> has been numbered
  iff one of the first \<open>k\<close> positions belongs to the group and had no identifier at the
  start. \<open>expected\<close> is the state of position \<open>p\<close> at that moment.
\<close>

definition group_hit :: "NewTransaction list \<Rightarrow> nat \<Rightarrow> nat \<Rightarrow> bool" where
  "group_hit ts k p = (\<exists>m<k. same_date_amount (ts ! p) (ts ! m) \<and> unassigned (ts ! m))"

definition expected :: "NewTransaction list \<Rightarrow> nat \<Rightarrow> nat \<Rightarrow> NewTransaction" where
  "expected ts k p =
     (if group_hit ts k p
      then (ts ! p)\<lparr>import_id := Some (import_id_str (ts ! p) (ordinal_at ts p))\<rparr>
      else ts ! p)"

text \<open>Two transactions of one day and one amount, the newer one first.\<close>

definition newer_tx :: NewTransaction where
  "newer_tx = \<lparr>account_id = Some ''some_account_id'', var_date = \<lparr>year = 2025, month = 1, day = 1\<rparr>,
     payee_name = Some ''Second'', amount = - 100000, cleared = Some CLEARED, import_id = None\<rparr>"

definition older_tx :: NewTransaction where
  "older_tx = \<lparr>account_id = Some ''some_account_id'', var_date = \<lparr>year = 2025, month = 1, day = 1\<rparr>,
     payee_name = Some ''First'', amount = - 100000, cleared = Some CLEARED, import_id = None\<rparr>"

text \<open>
  A transaction that already carries an identifier, of the same day and amount as the two
  above, and a transaction of another amount without identifier.
\<close>

definition preassigned_tx :: NewTransaction where
  "preassigned_tx = \<lparr>account_id = Some ''some_account_id'', var_date = \<lparr>year = 2025, month = 1, day = 1\<rparr>,
     payee_name = Some ''Third'', amount = - 100000, cleared = Some CLEARED,
     import_id = Some ''UBS2YNAB:-100000:2025-01-01:7''\<rparr>"

definition other_amount_tx :: NewTransaction where
  "other_amount_tx = \<lparr>account_id = Some ''some_account_id'', var_date = \<lparr>year = 2025, month = 1, day = 1\<rparr>,
     payee_name = Some ''Other'', amount = - 250000, cleared = Some CLEARED, import_id = None\<rparr>"

section \<open>Python values the importers compute with\<close>

text \<open>
  Exceptions are values: every \<^verbatim>\<open>raise\<close> of the importers, and every exception of a library
  call they make, is an \<open>Inl\<close> result, and the first one ends the import.
\<close>

datatype error = ValueError | KeyError | OverflowError

definition bind :: "error + 'a \<Rightarrow> ('a \<Rightarrow> error + 'b) \<Rightarrow> error + 'b" where
  "bind r f = (case r of Inl e \<Rightarrow> Inl e | Inr v \<Rightarrow> f v)"

subsection \<open>\<^verbatim>\<open>float\<close>: IEEE 754 binary64\<close>

text \<open>
  A Python float that the importers can produce: a finite double, written as sign,
  significand \<open>m\<close> and exponent \<open>e\<close> for the value \<open>m * 2 ^ e\<close>, or an infinity. The
  significand has at most 53 bits and the exponent is at least \<open>-1074\<close>.
\<close>

datatype pyfloat = Finite bool nat int | Infinity bool

fun bitlen :: "nat \<Rightarrow> nat" where
  "bitlen n = (if n = 0 then 0 else bitlen (n div 2) + 1)"

declare bitlen.simps [simp del]

text \<open>The quotient \<open>a / b\<close> rounded to the nearest integer, ties to the even one.\<close>

definition round_half_even :: "nat \<Rightarrow> nat \<Rightarrow> nat" where
  "round_half_even a b =
     (let q = a div b; r = a mod b in
      if 2 * r < b then q
      else if b < 2 * r then q + 1
      else if even q then q else q + 1)"

text \<open>\<open>scale num den e\<close> is a fraction equal to \<open>(num / den) / 2 ^ e\<close>.\<close>

definition scale :: "nat \<Rightarrow> nat \<Rightarrow> int \<Rightarrow> nat \<times> nat" where
  "scale num den e = (if 0 \<le> e then (num, den * 2 ^ nat e) else (num * 2 ^ nat (- e), den))"

text \<open>
  The double nearest to the positive rational \<open>num / den\<close> (round to nearest, ties to
  even): the exponent is chosen so that the significand has 53 bits, and is not less than
  \<open>-1074\<close> (subnormal numbers).
\<close>

definition round_to_double :: "nat \<Rightarrow> nat \<Rightarrow> nat \<times> int" where
  "round_to_double num den =
     (if num = 0 then (0, 0)
      else
        let e0 = int (bitlen num) - int (bitlen den) - 53;
            e1 = (if 2 ^ 53 \<le> fst (scale num den e0) div snd (scale num den e0)
                  then e0 + 1 else e0);
            e = max e1 (- 1074)
        in (round_half_even (fst (scale num den e)) (snd (scale num den e)), e))"

definition float_of_rat :: "bool \<Rightarrow> nat \<Rightarrow> nat \<Rightarrow> pyfloat" where
  "float_of_rat neg num den =
     (case round_to_double num den of
        (m, e) \<Rightarrow> if 1024 < int (bitlen m) + e then Infinity neg else Finite neg m e)"

text \<open>
  \<^verbatim>\<open>float(s)\<close> for a string in plain decimal notation: an optional sign, digits, and
  optionally a point and more digits, with at least one digit. This is the notation of the
  amount fields of the bank's files and of the amounts the notification patterns capture.
  Python's \<^verbatim>\<open>float\<close> also reads exponents, underscores, surrounding blanks and
  \<^verbatim>\<open>inf\<close>/\<^verbatim>\<open>nan\<close>; those strings are outside this model, which answers \<^verbatim>\<open>ValueError\<close> as
  for any malformed field. A digit is one of the ten ASCII digits, here and in the date
  formats below.
\<close>

definition is_digit :: "char \<Rightarrow> bool" where
  "is_digit c = (48 \<le> (of_char c :: nat) \<and> (of_char c :: nat) \<le> 57)"

definition parse_decimal :: "string \<Rightarrow> (nat \<times> nat) option" where
  "parse_decimal s =
     (let ip = takeWhile is_digit s; rest = dropWhile is_digit s in
      case rest of
        [] \<Rightarrow> if ip = [] then None else Some (nat_of_digits ip, 1)
      | c # fp \<Rightarrow>
          if c = CHR ''.'' \<and> list_all is_digit fp \<and> (ip \<noteq> [] \<or> fp \<noteq> [])
          then Some (nat_of_digits (ip @ fp), 10 ^ length fp)
          else None)"

definition float_of_str :: "string \<Rightarrow> error + pyfloat" where
  "float_of_str s =
     (let neg = (case s of c # r \<Rightarrow> c = CHR ''-'' | [] \<Rightarrow> False);
          body = (case s of c # r \<Rightarrow> if c = CHR ''-'' \<or> c = CHR ''+'' then r else s | [] \<Rightarrow> s)
      in case parse_decimal body of
           None \<Rightarrow> Inl ValueError
         | Some (num, den) \<Rightarrow> Inr (float_of_rat neg num den))"

text \<open>\<^verbatim>\<open>-x\<close>, \<^verbatim>\<open>x == 0\<close> and \<^verbatim>\<open>x > 0\<close>.\<close>

fun float_neg :: "pyfloat \<Rightarrow> pyfloat" where
  "float_neg (Finite neg m e) = Finite (\<not> neg) m e"
| "float_neg (Infinity neg) = Infinity (\<not> neg)"

fun float_is_zero :: "pyfloat \<Rightarrow> bool" where
  "float_is_zero (Finite neg m e) = (m = 0)"
| "float_is_zero (Infinity neg) = False"

fun float_is_positive :: "pyfloat \<Rightarrow> bool" where
  "float_is_positive (Finite neg m e) = (\<not> neg \<and> 0 < m)"
| "float_is_positive (Infinity neg) = (\<not> neg)"

text \<open>
  \<^verbatim>\<open>x * 1000\<close>: the integer becomes the double 1000.0, and the exact product is rounded to
  the nearest double.
\<close>

fun float_times :: "pyfloat \<Rightarrow> nat \<Rightarrow> pyfloat" where
  "float_times (Finite neg m e) k =
     (if 0 \<le> e then float_of_rat neg (m * k * 2 ^ nat e) 1
      else float_of_rat neg (m * k) (2 ^ nat (- e)))"
| "float_times (Infinity neg) k = Infinity neg"

text \<open>\<^verbatim>\<open>int(x)\<close> truncates towards zero, and raises \<^verbatim>\<open>OverflowError\<close> on an infinity.\<close>

fun int_of_float :: "pyfloat \<Rightarrow> error + int" where
  "int_of_float (Finite neg m e) =
     (let magnitude = (if 0 \<le> e then m * 2 ^ nat e else m div 2 ^ nat (- e))
      in Inr (if neg then - int magnitude else int magnitude))"
| "int_of_float (Infinity neg) = Inl OverflowError"

text \<open>\<^verbatim>\<open>int(float(s) * 1000)\<close>, the conversion of an amount field to milliunits.\<close>

definition milliunits :: "string \<Rightarrow> error + int" where
  "milliunits s = bind (float_of_str s) (\<lambda>x. int_of_float (float_times x 1000))"

subsection \<open>Dates and times\<close>

definition is_leap :: "nat \<Rightarrow> bool" where
  "is_leap y = (y mod 4 = 0 \<and> (y mod 100 \<noteq> 0 \<or> y mod 400 = 0))"

definition days_in_month :: "nat \<Rightarrow> nat \<Rightarrow> nat" where
  "days_in_month y m =
     (if m = 2 then (if is_leap y then 29 else 28)
      else if m = 4 \<or> m = 6 \<or> m = 9 \<or> m = 11 then 30 else 31)"

text \<open>
  The check of the \<^verbatim>\<open>date\<close> constructor: a year from 1 to 9999, a month from 1 to 12 and a
  day of that month, or \<^verbatim>\<open>ValueError\<close>.
\<close>

definition make_date :: "nat \<Rightarrow> nat \<Rightarrow> nat \<Rightarrow> error + pydate" where
  "make_date y m d =
     (if 1 \<le> y \<and> y \<le> 9999 \<and> 1 \<le> m \<and> m \<le> 12 \<and> 1 \<le> d \<and> d \<le> days_in_month y m
      then Inr \<lparr>year = y, month = m, day = d\<rparr>
      else Inl ValueError)"

text \<open>\<^verbatim>\<open>s.split(sep)\<close> for a separator of one character.\<close>

fun split_on :: "char \<Rightarrow> string \<Rightarrow> string list" where
  "split_on sep [] = [[]]"
| "split_on sep (c # cs) =
     (if c = sep then [] # split_on sep cs
      else (case split_on sep cs of f # fs \<Rightarrow> (c # f) # fs | [] \<Rightarrow> [[c]]))"

text \<open>
  \<^verbatim>\<open>datetime.strptime(s, '%d.%m.%Y').date()\<close>. The directives stand for the patterns
  \<^verbatim>\<open>3[0-1]|[1-2]\d|0[1-9]|[1-9]| [1-9]\<close> (day), \<^verbatim>\<open>1[0-2]|0[1-9]|[1-9]\<close> (month) and
  \<^verbatim>\<open>\d\d\d\d\<close> (year), the whole string must match, and the three numbers must form a
  date.
\<close>

definition strptime_day :: "string \<Rightarrow> nat option" where
  "strptime_day s =
     (if length s = 2 \<and> list_all is_digit s \<and> 1 \<le> nat_of_digits s \<and> nat_of_digits s \<le> 31
        then Some (nat_of_digits s)
      else if length s = 1 \<and> list_all is_digit s \<and> 1 \<le> nat_of_digits s
        then Some (nat_of_digits s)
      else if length s = 2 \<and> hd s = CHR '' '' \<and> list_all is_digit (tl s) \<and> 1 \<le> nat_of_digits (tl s)
        then Some (nat_of_digits (tl s))
      else None)"

definition strptime_month :: "string \<Rightarrow> nat option" where
  "strptime_month s =
     (if length s = 2 \<and> list_all is_digit s \<and> 1 \<le> nat_of_digits s \<and> nat_of_digits s \<le> 12
        then Some (nat_of_digits s)
      else if length s = 1 \<and> list_all is_digit s \<and> 1 \<le> nat_of_digits s
        then Some (nat_of_digits s)
      else None)"

definition strptime_year :: "string \<Rightarrow> nat option" where
  "strptime_year s =
     (if length s = 4 \<and> list_all is_digit s then Some (nat_of_digits s) else None)"

definition strptime_dmY :: "string \<Rightarrow> error + pydate" where
  "strptime_dmY s =
     (case split_on CHR ''.'' s of
        [ds, ms, ys] \<Rightarrow>
          (case (strptime_day ds, strptime_month ms, strptime_year ys) of
             (Some d, Some m, Some y) \<Rightarrow> make_date y m d
           | _ \<Rightarrow> Inl ValueError)
      | _ \<Rightarrow> Inl ValueError)"

text \<open>
  \<^verbatim>\<open>datetime.fromisoformat(s).date()\<close> for the two forms found in the bank's files,
  \<^verbatim>\<open>YYYY-MM-DD\<close> and \<^verbatim>\<open>YYYY-MM-DD HH:MM:SS\<close> (any one character may separate date and
  time). Other ISO 8601 forms that newer Python versions read are outside this model,
  which answers \<^verbatim>\<open>ValueError\<close> for them.
\<close>

definition two_digits :: "string \<Rightarrow> nat option" where
  "two_digits s = (if length s = 2 \<and> list_all is_digit s then Some (nat_of_digits s) else None)"

definition iso_date :: "string \<Rightarrow> error + pydate" where
  "iso_date s =
     (case split_on CHR ''-'' s of
        [ys, ms, ds] \<Rightarrow>
          (case (strptime_year ys, two_digits ms, two_digits ds) of
             (Some y, Some m, Some d) \<Rightarrow> make_date y m d
           | _ \<Rightarrow> Inl ValueError)
      | _ \<Rightarrow> Inl ValueError)"

definition iso_time_ok :: "string \<Rightarrow> bool" where
  "iso_time_ok s =
     (case split_on CHR '':'' s of
        [hs, ms, ss] \<Rightarrow>
          (case (two_digits hs, two_digits ms, two_digits ss) of
             (Some h, Some m, Some sec) \<Rightarrow> h < 24 \<and> m < 60 \<and> sec < 60
           | _ \<Rightarrow> False)
      | _ \<Rightarrow> False)"

definition fromisoformat_date :: "string \<Rightarrow> error + pydate" where
  "fromisoformat_date s =
     (if length s = 10 then iso_date s
      else if length s = 19 \<and> iso_time_ok (drop 11 s) then iso_date (take 10 s)
      else Inl ValueError)"

section \<open>The ledger boundary: \<^verbatim>\<open>_createYnabTransactions\<close>\<close>

text \<open>
  The only effect of the importers is the call \<^verbatim>\<open>create_transaction(budget_id, data)\<close> of
  the ledger API. An import returns the list of the batches it has submitted, in order:
  one batch, or none in a dry run.
\<close>

definition createYnabTransactions :: "NewTransaction list \<Rightarrow> bool \<Rightarrow> NewTransaction list list" where
  "createYnabTransactions transactions dry_run = (if dry_run then [] else [transactions])"

section \<open>The importers of CSV files\<close>

text \<open>
  \<^verbatim>\<open>csv.DictReader\<close> yields one dict per row, from column name to field text;
  \<^verbatim>\<open>row[column]\<close> raises \<^verbatim>\<open>KeyError\<close> for a column the file does not have.
\<close>

definition row_get :: "(string \<rightharpoonup> string) \<Rightarrow> string \<Rightarrow> error + string" where
  "row_get row column = (case row column of None \<Rightarrow> Inl KeyError | Some v \<Rightarrow> Inr v)"

subsection \<open>\<^verbatim>\<open>importCreditCsv\<close>\<close>

definition isCreditIncomingTransfer :: "string \<Rightarrow> bool" where
  "isCreditIncomingTransfer payee = (payee = ''TRANSFER FROM ACCOUNT'')"

text \<open>The body of the loop after the check of the account number: one row, one transaction.\<close>

definition credit_transaction :: "string \<Rightarrow> (string \<rightharpoonup> string) \<Rightarrow> error + NewTransaction" where
  "credit_transaction acc row =
     bind (row_get row ''Purchase date'') (\<lambda>purchase_date.
     bind (strptime_dmY purchase_date) (\<lambda>d.
     bind (row_get row ''Booking text'') (\<lambda>payee.
     bind (row_get row ''Credit'') (\<lambda>credit.
       if credit \<noteq> [] then
         bind (milliunits credit) (\<lambda>a.
           Inr \<lparr>account_id = Some acc, var_date = d, payee_name = Some payee, amount = a,
                cleared = Some CLEARED, import_id = None\<rparr>)
       else
         bind (row_get row ''Debit'') (\<lambda>debit.
           if debit \<noteq> [] then
             bind (milliunits debit) (\<lambda>a.
               Inr \<lparr>account_id = Some acc, var_date = d, payee_name = Some payee, amount = - a,
                    cleared = Some CLEARED, import_id = None\<rparr>)
           else
             bind (row_get row ''Amount'') (\<lambda>amount_field.
             bind (milliunits amount_field) (\<lambda>a.
               Inr \<lparr>account_id = Some acc, var_date = d, payee_name = Some payee,
                    amount = (if isCreditIncomingTransfer payee then - (- a) else - a),
                    cleared = Some UNCLEARED, import_id = None\<rparr>)))))))"

text \<open>
  The loop over the rows; a row without account number ends it (\<^verbatim>\<open>break\<close>), an exception
  ends the import.
\<close>

fun credit_rows :: "string \<Rightarrow> (string \<rightharpoonup> string) list \<Rightarrow> error + NewTransaction list" where
  "credit_rows acc [] = Inr []"
| "credit_rows acc (row # rest) =
     (case row_get row ''Account number'' of
        Inl e \<Rightarrow> Inl e
      | Inr account_number \<Rightarrow>
          if account_number = [] then Inr []
          else (case credit_transaction acc row of
                  Inl e \<Rightarrow> Inl e
                | Inr t \<Rightarrow> (case credit_rows acc rest of
                              Inl e \<Rightarrow> Inl e
                            | Inr transactions \<Rightarrow> Inr (t # transactions))))"

definition importCreditCsv ::
    "(string \<rightharpoonup> string) list \<Rightarrow> string \<Rightarrow> bool \<Rightarrow> error + NewTransaction list list" where
  "importCreditCsv rows acc dry_run =
     bind (credit_rows acc rows) (\<lambda>transactions.
       Inr (createYnabTransactions (populateImportIds transactions) dry_run))"

subsection \<open>\<^verbatim>\<open>importRevolutCsv\<close>\<close>

definition startswith :: "string \<Rightarrow> string \<Rightarrow> bool" where
  "startswith s prefix = (take (length prefix) s = prefix)"

text \<open>One row: \<open>None\<close> when the row is skipped (\<^verbatim>\<open>continue\<close>).\<close>

definition revolut_transaction ::
    "string \<Rightarrow> (string \<rightharpoonup> string) \<Rightarrow> error + NewTransaction option" where
  "revolut_transaction acc row =
     bind (row_get row ''Product'') (\<lambda>product.
       if product \<noteq> ''Current'' then Inr None
       else
         bind (row_get row ''Description'') (\<lambda>description.
         bind (row_get row ''Type'') (\<lambda>type.
           if type = ''Transfer''
              \<and> (startswith description ''To pocket ''
                 \<or> description = ''Balance migration to another region or legal entity'')
           then Inr None
           else
             bind (row_get row ''Started Date'') (\<lambda>started.
             bind (fromisoformat_date started) (\<lambda>d.
             bind (row_get row ''Amount'') (\<lambda>amount_field.
             bind (milliunits amount_field) (\<lambda>a.
             bind (row_get row ''Fee'') (\<lambda>fee_field.
             bind (milliunits fee_field) (\<lambda>fee.
             bind (row_get row ''State'') (\<lambda>state.
               Inr (Some \<lparr>account_id = Some acc, var_date = d, payee_name = Some description,
                         amount = a - fee,
                         cleared = Some (if state = ''COMPLETED'' then CLEARED else UNCLEARED),
                         import_id = None\<rparr>)))))))))))"

fun revolut_rows :: "string \<Rightarrow> (string \<rightharpoonup> string) list \<Rightarrow> error + NewTransaction list" where
  "revolut_rows acc [] = Inr []"
| "revolut_rows acc (row # rest) =
     (case revolut_transaction acc row of
        Inl e \<Rightarrow> Inl e
      | Inr skipped_or_t \<Rightarrow>
          (case revolut_rows acc rest of
             Inl e \<Rightarrow> Inl e
           | Inr transactions \<Rightarrow>
               Inr (case skipped_or_t of None \<Rightarrow> transactions | Some t \<Rightarrow> t # transactions)))"

text \<open>
  \<^verbatim>\<open>transactions.reverse()\<close>, then \<^verbatim>\<open>_populateImportIds(transactions)\<close>, then
  \<^verbatim>\<open>_createYnabTransactions(ynab_api_client, budget_id, transactions, dry_run)\<close>.
\<close>

definition importRevolutCsv ::
    "(string \<rightharpoonup> string) list \<Rightarrow> string \<Rightarrow> bool \<Rightarrow> error + NewTransaction list list" where
  "importRevolutCsv rows acc dry_run =
     bind (revolut_rows acc rows) (\<lambda>transactions.
       Inr (createYnabTransactions (populateImportIds (rev transactions)) dry_run))"

subsection \<open>Minor units as the specification reads them\<close>

text \<open>
  The specification's amount in minor units is the decimal value of the field times 1000,
  an integer for a field with at most three decimals. \<open>spec_minor_units\<close> is that exact
  value; it is the yardstick for \<open>milliunits\<close>, the conversion the code performs in binary
  floating point.
\<close>

definition spec_minor_units :: "string \<Rightarrow> int option" where
  "spec_minor_units s =
     (let neg = (case s of c # r \<Rightarrow> c = CHR ''-'' | [] \<Rightarrow> False);
          body = (case s of c # r \<Rightarrow> if c = CHR ''-'' \<or> c = CHR ''+'' then r else s | [] \<Rightarrow> s)
      in case parse_decimal body of
           None \<Rightarrow> None
         | Some (num, den) \<Rightarrow>
             if (num * 1000) mod den = 0
             then Some (if neg then - int (num * 1000 div den) else int (num * 1000 div den))
             else None)"

section \<open>The importer of e-mail notifications\<close>

subsection \<open>Timestamps\<close>

text \<open>
  The date of a message is a \<^verbatim>\<open>datetime\<close>. The model covers timestamps that can be
  subtracted by their calendar fields: naive ones, or aware ones of one UTC offset.
  \<^verbatim>\<open>a - b\<close> is a \<^verbatim>\<open>timedelta\<close>, here its length in microseconds; \<^verbatim>\<open>dt.date()\<close> is the calendar
  date.
\<close>

record pydatetime =
  ymd :: pydate
  hour :: nat
  minute :: nat
  second :: nat
  microsecond :: nat

definition datetime_date :: "pydatetime \<Rightarrow> pydate" where
  "datetime_date dt = ymd dt"

definition days_before_year :: "nat \<Rightarrow> int" where
  "days_before_year y =
     (let p = int y - 1 in p * 365 + p div 4 - p div 100 + p div 400)"

definition days_before_month :: "nat \<Rightarrow> nat \<Rightarrow> int" where
  "days_before_month y m = sum_list (map (\<lambda>k. int (days_in_month y k)) [1..<m])"

definition toordinal :: "pydate \<Rightarrow> int" where
  "toordinal d = days_before_year (year d) + days_before_month (year d) (month d) + int (day d)"

definition datetime_microseconds :: "pydatetime \<Rightarrow> int" where
  "datetime_microseconds dt =
     (((toordinal (ymd dt) * 24 + int (hour dt)) * 60 + int (minute dt)) * 60 + int (second dt))
        * 1000000 + int (microsecond dt)"

definition datetime_sub :: "pydatetime \<Rightarrow> pydatetime \<Rightarrow> int" where
  "datetime_sub a b = datetime_microseconds a - datetime_microseconds b"

text \<open>\<^verbatim>\<open>MAX_CREDIT_CARD_TRANSFT_TIMEDELTA = timedelta(minutes=1)\<close>, in microseconds.\<close>

definition MAX_CREDIT_CARD_TRANSFT_TIMEDELTA :: int where
  "MAX_CREDIT_CARD_TRANSFT_TIMEDELTA = 1 * 60 * 1000000"

subsection \<open>The three patterns\<close>

text \<open>
  A Python string is modelled by its UTF-8 bytes. The patterns are anchored at the start
  of the message (\<^verbatim>\<open>re.search\<close> with \<^verbatim>\<open>^\<close> and without \<^verbatim>\<open>re.MULTILINE\<close>), so each matcher
  reads the message from its first character and returns the captured groups. \<^verbatim>\<open>\d\<close> is
  an ASCII digit here, and \<^verbatim>\<open>.\<close> is any character but the newline.
\<close>

definition strip_prefix :: "string \<Rightarrow> string \<Rightarrow> string option" where
  "strip_prefix prefix s =
     (if take (length prefix) s = prefix then Some (drop (length prefix) s) else None)"

text \<open>The right single quotation mark U+2019, the thousands separator of the amounts.\<close>

definition apostrophe :: string where
  "apostrophe = [CHR 0xE2, CHR 0x80, CHR 0x99]"

text \<open>
  \<^verbatim>\<open>[\d\u2019]+\<close> is greedy and the character after it must be a point, so it takes the longest
  run of digits and separators: \<open>amount_run s\<close> is that run and the rest of \<open>s\<close>.
\<close>

fun amount_run :: "string \<Rightarrow> string \<times> string" where
  "amount_run [] = ([], [])"
| "amount_run (c # r) =
     (if is_digit c then (case amount_run r of (p, q) \<Rightarrow> (c # p, q))
      else if take 3 (c # r) = apostrophe
        then (case amount_run (drop 2 r) of (p, q) \<Rightarrow> (apostrophe @ p, q))
      else ([], c # r))"

text \<open>\<^verbatim>\<open>([\d\u2019]+\.\d\d)\<close>: the captured text and the rest of the string.\<close>

definition re_amount :: "string \<Rightarrow> (string \<times> string) option" where
  "re_amount s =
     (case amount_run s of
        (p, r) \<Rightarrow>
          if p = [] then None
          else (case r of
                  d0 # d1 # d2 # r' \<Rightarrow>
                    if d0 = CHR ''.'' \<and> is_digit d1 \<and> is_digit d2
                    then Some (p @ [d0, d1, d2], r') else None
                | _ \<Rightarrow> None))"

text \<open>
  \<^verbatim>\<open>(.+)\<close> followed by the rest of a pattern, given as the matcher \<open>cont\<close>: the group is the
  longest non-empty text without newline after which \<open>cont\<close> matches (the regular
  expression engine tries the longest first and backtracks).
\<close>

fun dot_plus :: "(string \<Rightarrow> 'a option) \<Rightarrow> string \<Rightarrow> string \<Rightarrow> (string \<times> 'a) option" where
  "dot_plus cont taken [] =
     (if taken = [] then None else map_option (Pair taken) (cont []))"
| "dot_plus cont taken (c # cs) =
     (case (if c = CHR 0x0A then None else dot_plus cont (taken @ [c]) cs) of
        Some r \<Rightarrow> Some r
      | None \<Rightarrow> if taken = [] then None else map_option (Pair taken) (cont (c # cs)))"

text \<open>
  \<^verbatim>\<open>UBS_DEBIT_CARD_REGEXP =
     r'^Your account "(.+)" has been (debited|credited) CHF ([\d\u2019]+\.\d\d)\.'\<close>
  The result is (account, action, amount).
\<close>

definition debit_action :: "string \<Rightarrow> (string \<times> string) option" where
  "debit_action s =
     (case strip_prefix ''debited'' s of
        Some r \<Rightarrow> Some (''debited'', r)
      | None \<Rightarrow> map_option (Pair ''credited'') (strip_prefix ''credited'' s))"

definition debit_tail :: "string \<Rightarrow> (string \<times> string) option" where
  \<open>debit_tail s =
     (case strip_prefix ''" has been '' s of
        None \<Rightarrow> None
      | Some r \<Rightarrow>
          (case debit_action r of
             None \<Rightarrow> None
           | Some (action, r2) \<Rightarrow>
               (case strip_prefix '' CHF '' r2 of
                  None \<Rightarrow> None
                | Some r3 \<Rightarrow>
                    (case re_amount r3 of
                       None \<Rightarrow> None
                     | Some (amt, r4) \<Rightarrow>
                         (case strip_prefix ''.'' r4 of
                            None \<Rightarrow> None
                          | Some r5 \<Rightarrow> Some (action, amt))))))\<close>

definition UBS_DEBIT_CARD_REGEXP :: "string \<Rightarrow> (string \<times> string \<times> string) option" where
  \<open>UBS_DEBIT_CARD_REGEXP s =
     (case strip_prefix ''Your account "'' s of
        None \<Rightarrow> None
      | Some r \<Rightarrow> dot_plus debit_tail [] r)\<close>

text \<open>
  \<^verbatim>\<open>UBS_CREDIT_CARD_OUTFLOW_REGEXP =
     r'^CHF ([\d\u2019]+\.\d\d) have been charged to card "(\d\d\d\d)"\. (.+)\. Available amount:'\<close>
  The result is (amount, card, payee).
\<close>

definition four_digits :: "string \<Rightarrow> (string \<times> string) option" where
  "four_digits s =
     (if 4 \<le> length s \<and> list_all is_digit (take 4 s) then Some (take 4 s, drop 4 s) else None)"

definition UBS_CREDIT_CARD_OUTFLOW_REGEXP :: "string \<Rightarrow> (string \<times> string \<times> string) option" where
  \<open>UBS_CREDIT_CARD_OUTFLOW_REGEXP s =
     (case strip_prefix ''CHF '' s of
        None \<Rightarrow> None
      | Some r \<Rightarrow>
          (case re_amount r of
             None \<Rightarrow> None
           | Some (amt, r1) \<Rightarrow>
               (case strip_prefix '' have been charged to card "'' r1 of
                  None \<Rightarrow> None
                | Some r2 \<Rightarrow>
                    (case four_digits r2 of
                       None \<Rightarrow> None
                     | Some (card_alias, r3) \<Rightarrow>
                         (case strip_prefix ''". '' r3 of
                            None \<Rightarrow> None
                          | Some r4 \<Rightarrow>
                              map_option (\<lambda>(payee, u). (amt, card_alias, payee))
                                (dot_plus (strip_prefix ''. Available amount:'') [] r4))))))\<close>

text \<open>
  \<^verbatim>\<open>UBS_CREDIT_CARD_INFLOW_REGEXP = r'^Amount available on card "(\d\d\d\d)": CHF'\<close>
  The result is the card.
\<close>

definition UBS_CREDIT_CARD_INFLOW_REGEXP :: "string \<Rightarrow> string option" where
  \<open>UBS_CREDIT_CARD_INFLOW_REGEXP s =
     (case strip_prefix ''Amount available on card "'' s of
        None \<Rightarrow> None
      | Some r \<Rightarrow>
          (case four_digits r of
             None \<Rightarrow> None
           | Some (card_alias, r1) \<Rightarrow> map_option (\<lambda>u. card_alias) (strip_prefix ''": CHF'' r1)))\<close>

text \<open>\<^verbatim>\<open>s.replace('\u2019', '')\<close>\<close>

fun remove_apostrophes :: "string \<Rightarrow> string" where
  "remove_apostrophes [] = []"
| "remove_apostrophes (c # r) =
     (if take 3 (c # r) = apostrophe then remove_apostrophes (drop 2 r)
      else c # remove_apostrophes r)"

subsection \<open>\<^verbatim>\<open>importUbsFromEmail\<close>\<close>

text \<open>\<^verbatim>\<open>Notification = namedtuple('Notification', ['date', 'message'])\<close>\<close>

record Notification =
  date :: pydatetime
  message :: string

text \<open>
  \<^verbatim>\<open>t.account_id = account_map[alias]\<close> raises \<^verbatim>\<open>KeyError\<close> for an alias that is not a key
  of the dict, and the importer raises \<^verbatim>\<open>KeyError\<close> itself when the value is empty.
\<close>

definition lookup_account :: "(string \<rightharpoonup> string) \<Rightarrow> string \<Rightarrow> error + string" where
  "lookup_account account_map alias =
     (case account_map alias of
        None \<Rightarrow> Inl KeyError
      | Some v \<Rightarrow> if v = [] then Inl KeyError else Inr v)"

text \<open>
  The test that the importer applies to the notification before and to the one after an
  inflow notification \<open>n\<close>:
  \<^verbatim>\<open>p1 and abs(nn.date - n.date) < MAX_CREDIT_CARD_TRANSFT_TIMEDELTA and p1.group(2) == 'debited'\<close>
\<close>

definition is_companion :: "Notification \<Rightarrow> Notification \<Rightarrow> bool" where
  "is_companion n nn =
     (case UBS_DEBIT_CARD_REGEXP (message nn) of
        None \<Rightarrow> False
      | Some (account, action, amt) \<Rightarrow>
          \<bar>datetime_sub (date nn) (date n)\<bar> < MAX_CREDIT_CARD_TRANSFT_TIMEDELTA
          \<and> action = ''debited'')"

text \<open>\<^verbatim>\<open>float(p1.group(3).replace('\u2019', ''))\<close> of a notification that matches the third pattern.\<close>

definition companion_sum :: "Notification \<Rightarrow> error + pyfloat" where
  "companion_sum nn =
     (case UBS_DEBIT_CARD_REGEXP (message nn) of
        None \<Rightarrow> Inr (Finite False 0 0)
      | Some (account, action, amt) \<Rightarrow> float_of_str (remove_apostrophes amt))"

text \<open>
  The value of \<^verbatim>\<open>debit_sum\<close> for the inflow notification at position \<open>i\<close>: 0, or the amount
  of the notification before it when that one passes the test, or else of the one after
  it.
\<close>

definition debit_sum_before :: "Notification list \<Rightarrow> nat \<Rightarrow> error + pyfloat" where
  "debit_sum_before notifications i =
     (if 0 < i \<and> is_companion (notifications ! i) (notifications ! (i - 1))
      then companion_sum (notifications ! (i - 1))
      else Inr (Finite False 0 0))"

definition debit_sum_at :: "Notification list \<Rightarrow> nat \<Rightarrow> error + pyfloat" where
  "debit_sum_at notifications i =
     bind (debit_sum_before notifications i) (\<lambda>debit_sum.
       if float_is_zero debit_sum \<and> i < length notifications - 1
          \<and> is_companion (notifications ! i) (notifications ! (i + 1))
       then companion_sum (notifications ! (i + 1))
       else Inr debit_sum)"

text \<open>
  One iteration of the loop \<^verbatim>\<open>for i, n in enumerate(notifications)\<close>: the transactions it
  appends (one or none), or the exception that ends the import.
\<close>

definition notification_step ::
    "(string \<rightharpoonup> string) \<Rightarrow> Notification list \<Rightarrow> nat \<Rightarrow> error + NewTransaction list" where
  "notification_step account_map notifications i =
     (let n = notifications ! i in
      case UBS_CREDIT_CARD_OUTFLOW_REGEXP (message n) of
        Some (amt, card_alias, payee) \<Rightarrow>
          bind (float_of_str (remove_apostrophes amt)) (\<lambda>x.
          bind (lookup_account account_map card_alias) (\<lambda>acc.
          bind (int_of_float (float_times (float_neg x) 1000)) (\<lambda>a.
            Inr [\<lparr>account_id = Some acc, var_date = datetime_date (date n),
                  payee_name = Some payee, amount = a, cleared = None, import_id = None\<rparr>])))
      | None \<Rightarrow>
          (case UBS_CREDIT_CARD_INFLOW_REGEXP (message n) of
             Some card_alias \<Rightarrow>
               bind (debit_sum_at notifications i) (\<lambda>debit_sum.
                 if float_is_positive debit_sum then
                   bind (lookup_account account_map card_alias) (\<lambda>acc.
                   bind (int_of_float (float_times debit_sum 1000)) (\<lambda>a.
                     Inr [\<lparr>account_id = Some acc, var_date = datetime_date (date n),
                           payee_name = None, amount = a, cleared = None, import_id = None\<rparr>]))
                 else Inr [])
           | None \<Rightarrow>
               (case UBS_DEBIT_CARD_REGEXP (message n) of
                  Some (account, action, amt) \<Rightarrow>
                    bind (float_of_str (remove_apostrophes amt)) (\<lambda>x.
                    bind (lookup_account account_map account) (\<lambda>acc.
                    bind (int_of_float
                            (float_times (if action = ''debited'' then float_neg x else x) 1000))
                      (\<lambda>a.
                        Inr [\<lparr>account_id = Some acc, var_date = datetime_date (date n),
                              payee_name = None, amount = a, cleared = None,
                              import_id = None\<rparr>])))
                | None \<Rightarrow> Inr [])))"

text \<open>The loop: the transactions appended so far, or the first exception.\<close>

fun notification_loop ::
    "(string \<rightharpoonup> string) \<Rightarrow> Notification list \<Rightarrow> nat list \<Rightarrow> NewTransaction list
       \<Rightarrow> error + NewTransaction list" where
  "notification_loop account_map notifications [] transactions = Inr transactions"
| "notification_loop account_map notifications (i # rest) transactions =
     (case notification_step account_map notifications i of
        Inl e \<Rightarrow> Inl e
      | Inr new \<Rightarrow> notification_loop account_map notifications rest (transactions @ new))"

text \<open>
  The importer, from the list \<^verbatim>\<open>notifications\<close> that it has read from the mailbox: nothing
  is submitted when the list is empty; otherwise the transactions are reversed, given
  their identifiers and submitted.
\<close>

definition importUbsFromEmail ::
    "Notification list \<Rightarrow> (string \<rightharpoonup> string) \<Rightarrow> bool \<Rightarrow> error + NewTransaction list list" where
  "importUbsFromEmail notifications account_map dry_run =
     (if notifications = [] then Inr []
      else
        bind (notification_loop account_map notifications [0..<length notifications] [])
          (\<lambda>transactions.
            Inr (createYnabTransactions (populateImportIds (rev transactions)) dry_run)))"

section \<open>Example inputs\<close>

text \<open>
  Rows and notifications of the shapes the repository's tests use. A row of the
  secondary provider's file, with its description, amount and fee:
\<close>

definition revolut_row :: "string \<Rightarrow> string \<Rightarrow> string \<Rightarrow> (string \<rightharpoonup> string)" where
  "revolut_row description amount_field fee_field =
     map_of [(''Type'', ''Card Payment''), (''Product'', ''Current''),
             (''Started Date'', ''2020-01-13 19:20:21''), (''Description'', description),
             (''Amount'', amount_field), (''Fee'', fee_field), (''State'', ''COMPLETED'')]"

definition revolut_tx :: "string \<Rightarrow> int \<Rightarrow> string option \<Rightarrow> NewTransaction" where
  "revolut_tx payee a ident =
     \<lparr>account_id = Some ''some_account_id'', var_date = \<lparr>year = 2020, month = 1, day = 13\<rparr>,
      payee_name = Some payee, amount = a, cleared = Some CLEARED, import_id = ident\<rparr>"

text \<open>A row of the credit card file with neither Credit nor Debit field, only an amount:\<close>

definition credit_row :: "string \<Rightarrow> (string \<rightharpoonup> string)" where
  "credit_row booking_text =
     map_of [(''Account number'', ''ACC1''), (''Purchase date'', ''13.01.2000''),
             (''Booking text'', booking_text), (''Credit'', ''''), (''Debit'', ''''),
             (''Amount'', ''100.00'')]"

text \<open>
  Notifications of 2 January 2025, between 10:00 and 11:00: an inflow notification of the
  card 1234, a debit notification of the account Acc over 123.45, and a charge of 56.78
  to the card.
\<close>

definition at_time :: "nat \<Rightarrow> nat \<Rightarrow> pydatetime" where
  "at_time m s =
     \<lparr>ymd = \<lparr>year = 2025, month = 1, day = 2\<rparr>, hour = 10, minute = m, second = s,
      microsecond = 0\<rparr>"

definition credit_notification :: "pydatetime \<Rightarrow> Notification" where
  \<open>credit_notification dt =
     \<lparr>date = dt, message = ''Amount available on card "1234": CHF  1234.56.''\<rparr>\<close>

definition debit_notification :: "pydatetime \<Rightarrow> Notification" where
  \<open>debit_notification dt =
     \<lparr>date = dt, message = ''Your account "Acc" has been debited CHF 123.45.''\<rparr>\<close>

definition charge_notification :: "pydatetime \<Rightarrow> Notification" where
  \<open>charge_notification dt =
     \<lparr>date = dt,
      message = ''CHF 56.78 have been charged to card "1234". PAYEE. Available amount: CHF 1234.56''\<rparr>\<close>

definition test_account_map :: "string \<rightharpoonup> string" where
  "test_account_map = map_of [(''1234'', ''credit_account_id''), (''Acc'', ''debit_account_id'')]"

definition no_accounts :: "string \<rightharpoonup> string" where
  "no_accounts = Map.empty"

section \<open>Properties of the identifier assigner\<close>

lemma digit_char_code: "d < 10 \<Longrightarrow> (of_char (digit_char d) :: nat) = 48 + d"
proof -
  assume "d < 10"
  then have "d = 0 \<or> d = 1 \<or> d = 2 \<or> d = 3 \<or> d = 4 \<or> d = 5 \<or> d = 6 \<or> d = 7 \<or> d = 8 \<or> d = 9"
    by arith
  then show ?thesis
    by (elim disjE) (simp_all add: digit_char_def)
qed

lemma digit_char_not_colon: "d < 10 \<Longrightarrow> digit_char d \<noteq> CHR '':''"
proof
  assume d: "d < 10" and e: "digit_char d = CHR '':''"
  from e have "(of_char (digit_char d) :: nat) = of_char CHR '':''" by simp
  with d show False by (simp add: digit_char_code)
qed

lemma str_nat_no_colon: "c \<in> set (str_nat n) \<Longrightarrow> c \<noteq> CHR '':''"
proof (induction n rule: str_nat.induct)
  case (1 n)
  show ?case
  proof (cases "n < 10")
    case True
    with "1.prems" show ?thesis
      by (simp add: str_nat.simps [of n] digit_char_not_colon)
  next
    case False
    with "1.prems" have "c \<in> set (str_nat (n div 10)) \<or> c = digit_char (n mod 10)"
      by (auto simp add: str_nat.simps [of n])
    then show ?thesis
      using "1.IH" False digit_char_not_colon [of "n mod 10"] by auto
  qed
qed

lemma str_nat_nonempty: "str_nat n \<noteq> []"
  by (simp add: str_nat.simps [of n])

lemma nat_of_digits_snoc: "nat_of_digits (s @ [c]) = 10 * nat_of_digits s + (of_char c - 48)"
  by (simp add: nat_of_digits_def)

lemma nat_of_digits_str_nat: "nat_of_digits (str_nat n) = n"
proof (induction n rule: str_nat.induct)
  case (1 n)
  show ?case
  proof (cases "n < 10")
    case True
    then show ?thesis
      by (simp add: str_nat.simps [of n] nat_of_digits_def digit_char_code)
  next
    case False
    then have "nat_of_digits (str_nat n) = 10 * nat_of_digits (str_nat (n div 10)) + n mod 10"
      by (simp add: str_nat.simps [of n] nat_of_digits_snoc digit_char_code)
    with False "1.IH" show ?thesis by simp
  qed
qed

lemma last_field_import_id_str: "last_field (import_id_str t k) = str_nat k"
proof -
  have "rev (import_id_str t k) = rev (str_nat k) @ CHR '':'' # rev (''UBS2YNAB:'' @ str_int (amount t) @ '':'' @ isoformat (var_date t))"
    by (simp add: import_id_str_def)
  moreover have "\<forall>c\<in>set (rev (str_nat k)). c \<noteq> CHR '':''"
    using str_nat_no_colon by simp
  ultimately have "takeWhile (\<lambda>c. c \<noteq> CHR '':'') (rev (import_id_str t k)) = rev (str_nat k)"
    by (simp add: takeWhile_tail)
  then show ?thesis by (simp add: last_field_def)
qed

lemma import_id_str_nonempty: "import_id_str t k \<noteq> []"
  by (simp add: import_id_str_def)

lemma length_assign_ordinals [simp]: "length (assign_ordinals k js ts) = length ts"
  by (induction js arbitrary: k ts) simp_all

lemma assign_ordinals_other:
  "p \<notin> set js \<Longrightarrow> assign_ordinals k js ts ! p = ts ! p"
  by (induction js arbitrary: k ts) auto

lemma assign_ordinals_member:
  "distinct js \<Longrightarrow> \<forall>j\<in>set js. j < length ts \<Longrightarrow> q < length js \<Longrightarrow>
   assign_ordinals k js ts ! (js ! q) =
     (ts ! (js ! q))\<lparr>import_id := Some (import_id_str (ts ! (js ! q)) (k + q))\<rparr>"
proof (induction js arbitrary: k ts q)
  case Nil
  then show ?case by simp
next
  case (Cons j rest)
  let ?ts' = "ts[j := (ts ! j)\<lparr>import_id := Some (import_id_str (ts ! j) k)\<rparr>]"
  show ?case
  proof (cases q)
    case 0
    from Cons.prems have "j \<notin> set rest" "j < length ts" by simp_all
    then show ?thesis using 0 by (simp add: assign_ordinals_other)
  next
    case (Suc q')
    from Cons.prems Suc have q': "q' < length rest" by simp
    from Cons.prems have d: "distinct rest" and b: "\<forall>i\<in>set rest. i < length ?ts'" by simp_all
    from Cons.prems q' have ne: "rest ! q' \<noteq> j" by auto
    have "assign_ordinals (Suc k) rest ?ts' ! (rest ! q') =
        (?ts' ! (rest ! q'))\<lparr>import_id := Some (import_id_str (?ts' ! (rest ! q')) (Suc k + q'))\<rparr>"
      by (rule Cons.IH [OF d b q'])
    with ne Suc show ?thesis by simp
  qed
qed

lemma rev_filter_upt_nth:
  assumes "p < n" and "P p"
  shows "rev (filter P [0..<n]) ! length (filter P [Suc p..<n]) = p"
proof -
  have "[0..<n] = [0..<p] @ p # [Suc p..<n]"
    using assms(1) by (metis less_imp_le_nat upt_add_eq_append upt_conv_Cons le_add_diff_inverse zero_le)
  then have "filter P [0..<n] = filter P [0..<p] @ p # filter P [Suc p..<n]"
    using assms(2) by simp
  then have "rev (filter P [0..<n]) = rev (filter P [Suc p..<n]) @ p # rev (filter P [0..<p])"
    by simp
  then show ?thesis
    by (simp add: nth_append)
qed

lemma filter_upt_suffix_less:
  assumes "p < n" and "P p"
  shows "length (filter P [Suc p..<n]) < length (filter P [0..<n])"
proof -
  have "[0..<n] = [0..<p] @ p # [Suc p..<n]"
    using assms(1) by (metis less_imp_le_nat upt_add_eq_append upt_conv_Cons le_add_diff_inverse zero_le)
  then have "filter P [0..<n] = filter P [0..<p] @ p # filter P [Suc p..<n]"
    using assms(2) by simp
  then show ?thesis by simp
qed

lemma same_date_amount_sym: "same_date_amount a b = same_date_amount b a"
  by (auto simp: same_date_amount_def)

lemma same_date_amount_trans:
  "same_date_amount a b \<Longrightarrow> same_date_amount b c = same_date_amount a c"
  by (auto simp: same_date_amount_def)

lemma populate_step_nth:
  assumes i: "i < length ts" and p: "p < length ts" and u: "unassigned (ts ! i)"
  shows "populate_step i ts ! p =
     (if same_date_amount (ts ! i) (ts ! p)
      then (ts ! p)\<lparr>import_id := Some (import_id_str (ts ! p) (ordinal_at ts p))\<rparr>
      else ts ! p)"
proof -
  let ?Q = "\<lambda>j. same_date_amount (ts ! i) (ts ! j)"
  let ?js = "rev (filter ?Q [0..<length ts])"
  have step: "populate_step i ts = assign_ordinals 0 ?js ts"
    using u by (simp add: populate_step_def same_date_amount_indicies_def)
  show ?thesis
  proof (cases "?Q p")
    case True
    let ?q = "length (filter ?Q [Suc p..<length ts])"
    have at: "?js ! ?q = p"
      using p True by (rule rev_filter_upt_nth)
    have lt: "?q < length ?js"
      using filter_upt_suffix_less [of p "length ts" ?Q] p True by simp
    have "assign_ordinals 0 ?js ts ! (?js ! ?q) =
        (ts ! (?js ! ?q))\<lparr>import_id := Some (import_id_str (ts ! (?js ! ?q)) (0 + ?q))\<rparr>"
      by (rule assign_ordinals_member) (use lt in auto)
    moreover have "ordinal_at ts p = ?q"
      unfolding ordinal_at_def
      using same_date_amount_trans [OF True] by simp
    ultimately show ?thesis
      using True step at by simp
  next
    case False
    then have "p \<notin> set ?js" by simp
    then show ?thesis
      using False step by (simp add: assign_ordinals_other)
  qed
qed

lemma length_populate_step [simp]: "length (populate_step i ts) = length ts"
  by (simp add: populate_step_def Let_def)

lemma length_populate_loop [simp]: "length (populate_loop is ts) = length ts"
  by (induction "is" arbitrary: ts) simp_all

lemma import_id_str_cong:
  "var_date a = var_date b \<Longrightarrow> amount a = amount b \<Longrightarrow> import_id_str a k = import_id_str b k"
  by (simp add: import_id_str_def)

lemma expected_key:
  "var_date (expected ts k p) = var_date (ts ! p) \<and> amount (expected ts k p) = amount (ts ! p)"
  by (simp add: expected_def)

lemma not_unassigned_expected_hit:
  "group_hit ts k p \<Longrightarrow> \<not> unassigned (expected ts k p)"
  by (simp add: expected_def unassigned_def import_id_str_def)

lemma group_hit_Suc:
  "group_hit ts (Suc k) p =
     (group_hit ts k p \<or> (same_date_amount (ts ! p) (ts ! k) \<and> unassigned (ts ! k)))"
  by (auto simp: group_hit_def less_Suc_eq)

lemma group_hit_same:
  "same_date_amount (ts ! p) (ts ! q) \<Longrightarrow> group_hit ts k p = group_hit ts k q"
  by (auto simp: group_hit_def same_date_amount_def)

lemma populate_step_inv:
  assumes k: "k < length ts" and len: "length s = length ts"
    and inv: "\<forall>p<length ts. s ! p = expected ts k p"
  shows "\<forall>p<length ts. populate_step k s ! p = expected ts (Suc k) p"
proof (intro allI impI)
  fix p assume p: "p < length ts"
  have key: "\<And>a b. a < length ts \<Longrightarrow> b < length ts \<Longrightarrow>
      same_date_amount (s ! a) (s ! b) = same_date_amount (ts ! a) (ts ! b)"
    using inv expected_key by (simp add: same_date_amount_def)
  have ord: "ordinal_at s p = ordinal_at ts p"
    unfolding ordinal_at_def len
    by (rule arg_cong [where f = length], rule filter_cong) (use key p in auto)
  have ids: "import_id_str (s ! p) (ordinal_at ts p) = import_id_str (ts ! p) (ordinal_at ts p)"
    using inv p expected_key by (intro import_id_str_cong) simp_all
  have upd: "\<And>x. (s ! p)\<lparr>import_id := x\<rparr> = (ts ! p)\<lparr>import_id := x\<rparr>"
    using inv p by (simp add: expected_def)
  show "populate_step k s ! p = expected ts (Suc k) p"
  proof (cases "unassigned (s ! k)")
    case True
    then have nh: "\<not> group_hit ts k k"
      using inv k not_unassigned_expected_hit by auto
    then have sk: "s ! k = ts ! k" using inv k by (simp add: expected_def)
    with True have uk: "unassigned (ts ! k)" by simp
    have "populate_step k s ! p =
       (if same_date_amount (s ! k) (s ! p)
        then (s ! p)\<lparr>import_id := Some (import_id_str (s ! p) (ordinal_at s p))\<rparr>
        else s ! p)"
      using k p len True by (intro populate_step_nth) simp_all
    then have st: "populate_step k s ! p =
       (if same_date_amount (ts ! k) (ts ! p)
        then (ts ! p)\<lparr>import_id := Some (import_id_str (ts ! p) (ordinal_at ts p))\<rparr>
        else s ! p)"
      using key [OF k p] ord ids upd by simp
    show ?thesis
    proof (cases "same_date_amount (ts ! k) (ts ! p)")
      case True
      then have "group_hit ts (Suc k) p"
        using uk by (simp add: group_hit_Suc same_date_amount_sym)
      then show ?thesis using st True by (simp add: expected_def)
    next
      case False
      then have "group_hit ts (Suc k) p = group_hit ts k p"
        by (simp add: group_hit_Suc same_date_amount_sym)
      then show ?thesis using st False inv p by (simp add: expected_def)
    qed
  next
    case False
    have "group_hit ts (Suc k) p = group_hit ts k p"
    proof (cases "same_date_amount (ts ! p) (ts ! k) \<and> unassigned (ts ! k)")
      case True
      have "group_hit ts k k"
      proof (rule ccontr)
        assume "\<not> group_hit ts k k"
        then have "s ! k = ts ! k" using inv k by (simp add: expected_def)
        with True False show False by simp
      qed
      then have "group_hit ts k p" using True group_hit_same by blast
      then show ?thesis by (simp add: group_hit_Suc)
    next
      case False
      then show ?thesis by (auto simp: group_hit_Suc)
    qed
    then show ?thesis
      using False inv p by (simp add: populate_step_def expected_def)
  qed
qed

lemma populate_loop_inv:
  "k \<le> length ts \<Longrightarrow> length s = length ts \<Longrightarrow> \<forall>p<length ts. s ! p = expected ts k p \<Longrightarrow>
   \<forall>p<length ts. populate_loop [k..<length ts] s ! p = expected ts (length ts) p"
proof (induction "length ts - k" arbitrary: k s)
  case 0
  then show ?case by simp
next
  case (Suc d)
  then have k: "k < length ts" by simp
  have inv': "\<forall>p<length ts. populate_step k s ! p = expected ts (Suc k) p"
    using k Suc.prems(2,3) by (rule populate_step_inv)
  have "\<forall>p<length ts. populate_loop [Suc k..<length ts] (populate_step k s) ! p
      = expected ts (length ts) p"
    using Suc.hyps(2) k Suc.prems(2) inv' by (intro Suc.hyps(1)) simp_all
  then show ?case using k by (simp add: upt_conv_Cons)
qed

lemma populateImportIds_nth:
  "p < length ts \<Longrightarrow> populateImportIds ts ! p = expected ts (length ts) p"
  using populate_loop_inv [of 0 ts ts]
  by (simp add: populateImportIds_def expected_def group_hit_def)

lemma length_populateImportIds [simp]: "length (populateImportIds ts) = length ts"
  by (simp add: populateImportIds_def)

lemma suffix_count_rev_filter:
  "map (\<lambda>j. length (filter P [Suc j..<n])) (rev (filter P [0..<n]))
     = [0..<length (filter P [0..<n])]"
proof (rule nth_equalityI)
  show "length (map (\<lambda>j. length (filter P [Suc j..<n])) (rev (filter P [0..<n])))
      = length [0..<length (filter P [0..<n])]"
    by simp
next
  fix q
  assume "q < length (map (\<lambda>j. length (filter P [Suc j..<n])) (rev (filter P [0..<n])))"
  then have q: "q < length (rev (filter P [0..<n]))" by simp
  let ?xs = "rev (filter P [0..<n])"
  let ?j = "?xs ! q"
  have "?j \<in> set ?xs" using q by (rule nth_mem)
  then have j: "?j < n" "P ?j" by auto
  have at: "?xs ! length (filter P [Suc ?j..<n]) = ?j"
    using rev_filter_upt_nth [of ?j n P] j by simp
  have lt: "length (filter P [Suc ?j..<n]) < length ?xs"
    using filter_upt_suffix_less [of ?j n P] j by simp
  have "distinct ?xs" by simp
  then have "length (filter P [Suc ?j..<n]) = q"
    using at lt q nth_eq_iff_index_eq by blast
  then show "map (\<lambda>j. length (filter P [Suc j..<n])) (rev (filter P [0..<n])) ! q
      = [0..<length (filter P [0..<n])] ! q"
    using q by simp
qed

lemma filter_as_indices:
  "filter P xs = map ((!) xs) (filter (\<lambda>j. P (xs ! j)) [0..<length xs])"
proof -
  have "filter P (map ((!) xs) [0..<length xs]) = map ((!) xs) (filter (P \<circ> (!) xs) [0..<length xs])"
    by (rule filter_map)
  then show ?thesis by (simp add: map_nth comp_def)
qed

lemma ordinal_of_import_id_str:
  "ordinal_of (t\<lparr>import_id := Some (import_id_str t' k)\<rparr>) = Some k"
  by (simp add: ordinal_of_def last_field_import_id_str nat_of_digits_str_nat)

lemma populateImportIds_group:
  assumes t: "t \<in> set ts" and u: "unassigned t"
  defines "res \<equiv> populateImportIds ts"
  defines "idxs \<equiv> filter (\<lambda>j. same_date_amount t (ts ! j)) [0..<length ts]"
  shows "filter (same_date_amount t) res = map ((!) res) idxs"
    and "\<forall>j\<in>set idxs. res ! j = (ts ! j)\<lparr>import_id := Some (import_id_str t (ordinal_at ts j))\<rparr>"
    and "map (ordinal_at ts) (rev idxs) = [0..<length idxs]"
proof -
  from t obtain m where m: "m < length ts" "ts ! m = t" by (auto simp: in_set_conv_nth)
  have key: "\<And>j. j < length ts \<Longrightarrow> same_date_amount t (res ! j) = same_date_amount t (ts ! j)"
    by (simp add: res_def populateImportIds_nth same_date_amount_def expected_key)
  have "filter (same_date_amount t) res
      = map ((!) res) (filter (\<lambda>j. same_date_amount t (res ! j)) [0..<length res])"
    by (rule filter_as_indices)
  also have "filter (\<lambda>j. same_date_amount t (res ! j)) [0..<length res] = idxs"
    unfolding idxs_def by (rule filter_cong) (simp_all add: res_def key [unfolded res_def])
  finally show "filter (same_date_amount t) res = map ((!) res) idxs" .
  show "\<forall>j\<in>set idxs. res ! j = (ts ! j)\<lparr>import_id := Some (import_id_str t (ordinal_at ts j))\<rparr>"
  proof
    fix j assume "j \<in> set idxs"
    then have j: "j < length ts" "same_date_amount t (ts ! j)" by (simp_all add: idxs_def)
    then have "group_hit ts (length ts) j"
      using m u by (auto simp: group_hit_def same_date_amount_sym)
    moreover have "import_id_str (ts ! j) (ordinal_at ts j) = import_id_str t (ordinal_at ts j)"
      using j(2) by (intro import_id_str_cong) (simp_all add: same_date_amount_def)
    ultimately show "res ! j = (ts ! j)\<lparr>import_id := Some (import_id_str t (ordinal_at ts j))\<rparr>"
      using j(1) by (simp add: res_def populateImportIds_nth expected_def)
  qed
  have "map (ordinal_at ts) (rev idxs)
      = map (\<lambda>j. length (filter (\<lambda>j. same_date_amount t (ts ! j)) [Suc j..<length ts])) (rev idxs)"
  proof (rule map_cong [OF refl])
    fix j assume "j \<in> set (rev idxs)"
    then have "same_date_amount t (ts ! j)" by (simp add: idxs_def)
    then show "ordinal_at ts j = length (filter (\<lambda>j. same_date_amount t (ts ! j)) [Suc j..<length ts])"
      unfolding ordinal_at_def using same_date_amount_trans by simp
  qed
  also have "\<dots> = [0..<length idxs]"
    unfolding idxs_def by (rule suffix_count_rev_filter)
  finally show "map (ordinal_at ts) (rev idxs) = [0..<length idxs]" .
qed

text \<open>
  Claim C1. Take a batch in newest-first order and a transaction \<open>t\<close> of it that has no
  identifier yet. After the assigner has run, the transactions with the date and amount of
  \<open>t\<close>, read from the oldest to the newest (the batch reversed), carry the identifiers
  \<^verbatim>\<open>UBS2YNAB:<amount>:<date>:0\<close>, \<^verbatim>\<open>...:1\<close>, \<^verbatim>\<open>...:2\<close> and so on: the ordinals read back from
  the identifiers are \<open>0, 1, ..., n - 1\<close> for a group of \<open>n\<close>, without gap or repeat, the
  oldest transaction having ordinal 0.
\<close>

theorem populateImportIds_ordinals_contiguous:
  assumes "t \<in> set transactions" and "unassigned t"
  shows "map import_id (rev (filter (same_date_amount t) (populateImportIds transactions)))
           = map (\<lambda>ordinal. Some (import_id_str t ordinal))
               [0..<length (filter (same_date_amount t) transactions)]
       \<and> map ordinal_of (rev (filter (same_date_amount t) (populateImportIds transactions)))
           = map Some [0..<length (filter (same_date_amount t) transactions)]"
proof -
  let ?res = "populateImportIds transactions"
  let ?idxs = "filter (\<lambda>j. same_date_amount t (transactions ! j)) [0..<length transactions]"
  note g = populateImportIds_group [OF assms]
  have len: "length (filter (same_date_amount t) transactions) = length ?idxs"
    by (subst filter_as_indices) simp
  have grp: "rev (filter (same_date_amount t) ?res) = map ((!) ?res) (rev ?idxs)"
    by (simp add: g(1) rev_map)
  have "map import_id (map ((!) ?res) (rev ?idxs))
      = map (\<lambda>j. Some (import_id_str t (ordinal_at transactions j))) (rev ?idxs)"
    using g(2) by simp
  also have "\<dots> = map (\<lambda>ordinal. Some (import_id_str t ordinal)) (map (ordinal_at transactions) (rev ?idxs))"
    by (simp add: comp_def)
  finally have a: "map import_id (rev (filter (same_date_amount t) ?res))
      = map (\<lambda>ordinal. Some (import_id_str t ordinal)) [0..<length ?idxs]"
    by (simp only: grp g(3))
  have "map ordinal_of (map ((!) ?res) (rev ?idxs))
      = map (\<lambda>j. Some (ordinal_at transactions j)) (rev ?idxs)"
    using g(2) by (simp add: ordinal_of_import_id_str)
  also have "\<dots> = map Some (map (ordinal_at transactions) (rev ?idxs))"
    by (simp add: comp_def)
  finally have b: "map ordinal_of (rev (filter (same_date_amount t) ?res)) = map Some [0..<length ?idxs]"
    by (simp only: grp g(3))
  from a b len show ?thesis by simp
qed

theorem populateImportIds_ordinals_contiguous_witness:
  "newer_tx \<in> set [newer_tx, older_tx] \<and> unassigned newer_tx
   \<and> map import_id (rev (filter (same_date_amount newer_tx) (populateImportIds [newer_tx, older_tx])))
       = [Some ''UBS2YNAB:-100000:2025-01-01:0'', Some ''UBS2YNAB:-100000:2025-01-01:1'']
   \<and> map ordinal_of (rev (filter (same_date_amount newer_tx) (populateImportIds [newer_tx, older_tx])))
       = [Some 0, Some 1]"
  using populateImportIds_ordinals_contiguous [of newer_tx "[newer_tx, older_tx]"]
  by (simp add: newer_tx_def older_tx_def unassigned_def same_date_amount_def import_id_str_def
      str_int_def isoformat_def zero_pad_def str_nat.simps digit_char_def)

text \<open>
  Claim C4, as the specification states it: a transaction that has an identifier before the
  assigner runs keeps it, even when a transaction of the same date and amount has none.
  The code does otherwise: the outer loop skips the transaction itself, but when it reaches
  the unassigned member of the group, the inner loop numbers every member of the group and
  overwrites the identifier. Here the first transaction enters with ordinal 7 and leaves
  with ordinal 1.
\<close>

theorem populateImportIds_overwrites_assigned_counterexample:
  "\<not> unassigned preassigned_tx
   \<and> import_id preassigned_tx = Some ''UBS2YNAB:-100000:2025-01-01:7''
   \<and> same_date_amount preassigned_tx older_tx \<and> unassigned older_tx
   \<and> import_id (populateImportIds [preassigned_tx, older_tx] ! 0) = Some ''UBS2YNAB:-100000:2025-01-01:1''"
  by (simp add: populateImportIds_def populate_step_def same_date_amount_indicies_def
      preassigned_tx_def older_tx_def unassigned_def same_date_amount_def import_id_str_def
      str_int_def isoformat_def zero_pad_def str_nat.simps digit_char_def upt_rec)

text \<open>
  Claim C4, amended: a transaction keeps its identifier, and every other field, when every
  transaction of the batch with its date and amount (itself included) already has an
  identifier.
\<close>

theorem populateImportIds_keeps_assigned_group:
  assumes "i < length transactions"
    and "\<forall>t\<in>set transactions. same_date_amount (transactions ! i) t \<longrightarrow> \<not> unassigned t"
  shows "populateImportIds transactions ! i = transactions ! i"
proof -
  have "\<not> group_hit transactions (length transactions) i"
    using assms(2) by (auto simp: group_hit_def)
  then show ?thesis
    using assms(1) by (simp add: populateImportIds_nth expected_def)
qed

theorem populateImportIds_keeps_assigned_group_witness:
  "0 < length [preassigned_tx, other_amount_tx]
   \<and> \<not> unassigned preassigned_tx
   \<and> \<not> same_date_amount preassigned_tx other_amount_tx
   \<and> unassigned other_amount_tx
   \<and> populateImportIds [preassigned_tx, other_amount_tx] ! 0 = preassigned_tx"
  using populateImportIds_keeps_assigned_group [of 0 "[preassigned_tx, other_amount_tx]"]
  by (simp add: preassigned_tx_def other_amount_tx_def same_date_amount_def unassigned_def)

text \<open>
  Claim C6. On a batch in which every transaction has an identifier, the assigner returns
  the batch as it is: every field of every transaction is unchanged.
\<close>

theorem populateImportIds_idempotent:
  assumes "\<forall>t\<in>set transactions. \<not> unassigned t"
  shows "populateImportIds transactions = transactions"
proof (rule nth_equalityI)
  show "length (populateImportIds transactions) = length transactions" by simp
next
  fix p assume "p < length (populateImportIds transactions)"
  then have p: "p < length transactions" by simp
  have "\<not> group_hit transactions (length transactions) p"
    using assms by (auto simp: group_hit_def)
  then show "populateImportIds transactions ! p = transactions ! p"
    using p by (simp add: populateImportIds_nth expected_def)
qed

theorem populateImportIds_idempotent_witness:
  "\<not> unassigned preassigned_tx
   \<and> \<not> unassigned (preassigned_tx\<lparr>import_id := Some ''UBS2YNAB:-100000:2025-01-01:6''\<rparr>)
   \<and> populateImportIds [preassigned_tx, preassigned_tx\<lparr>import_id := Some ''UBS2YNAB:-100000:2025-01-01:6''\<rparr>]
     = [preassigned_tx, preassigned_tx\<lparr>import_id := Some ''UBS2YNAB:-100000:2025-01-01:6''\<rparr>]"
  using populateImportIds_idempotent [of "[preassigned_tx, preassigned_tx\<lparr>import_id := Some ''UBS2YNAB:-100000:2025-01-01:6''\<rparr>]"]
  by (simp add: preassigned_tx_def unassigned_def)

section \<open>Evaluating the Python model\<close>

lemma bind_Inr_iff: "bind r f = Inr y \<longleftrightarrow> (\<exists>v. r = Inr v \<and> f v = Inr y)"
  by (cases r) (simp_all add: bind_def)

lemma bind_Inl [simp]: "bind (Inl e) f = Inl e"
  by (simp add: bind_def)

lemma bind_Inr [simp]: "bind (Inr v) f = f v"
  by (simp add: bind_def)

text \<open>The bit length of a numeral follows its binary digits.\<close>

lemma bitlen_0: "bitlen 0 = 0"
  by (simp add: bitlen.simps)

lemma bitlen_Suc_0: "bitlen (Suc 0) = 1"
  by (simp add: bitlen.simps [of "Suc 0"] bitlen_0)

lemma bitlen_One: "bitlen (numeral Num.One) = 1"
  using bitlen_Suc_0 by simp

lemma bitlen_Bit0: "bitlen (numeral (Num.Bit0 k)) = bitlen (numeral k) + 1"
  by (subst bitlen.simps) simp

lemma bitlen_Bit1: "bitlen (numeral (Num.Bit1 k)) = bitlen (numeral k) + 1"
  by (subst bitlen.simps) simp

lemmas bitlen_eval = bitlen_0 bitlen_Suc_0 bitlen_One bitlen_Bit0 bitlen_Bit1

lemmas float_parse_eval = float_of_str_def parse_decimal_def is_digit_def nat_of_digits_def

lemmas float_round_eval = float_of_rat_def round_to_double_def scale_def round_half_even_def
  bitlen_eval Let_def

text \<open>Amounts of the examples, in milliunits.\<close>

lemma float_of_str_m50: "float_of_str ''-50.00'' = Inr (Finite True 7036874417766400 (- 47))"
proof -
  have "float_of_str ''-50.00'' = Inr (float_of_rat True 5000 100)"
    by (simp add: float_parse_eval)
  also have "float_of_rat True 5000 100 = Finite True 7036874417766400 (- 47)"
    by (simp add: float_round_eval cong: if_weak_cong prod.case_cong_weak split del: if_split)
  finally show ?thesis .
qed

lemma milliunits_m50: "milliunits ''-50.00'' = Inr (- 50000)"
  by (simp add: milliunits_def float_of_str_m50 float_round_eval
      cong: if_weak_cong prod.case_cong_weak split del: if_split)

lemma float_of_str_2: "float_of_str ''2.00'' = Inr (Finite False 4503599627370496 (- 51))"
proof -
  have "float_of_str ''2.00'' = Inr (float_of_rat False 200 100)"
    by (simp add: float_parse_eval)
  also have "float_of_rat False 200 100 = Finite False 4503599627370496 (- 51)"
    by (simp add: float_round_eval cong: if_weak_cong prod.case_cong_weak split del: if_split)
  finally show ?thesis .
qed

lemma milliunits_2: "milliunits ''2.00'' = Inr 2000"
  by (simp add: milliunits_def float_of_str_2 float_round_eval
      cong: if_weak_cong prod.case_cong_weak split del: if_split)

lemma milliunits_0: "milliunits ''0.00'' = Inr 0"
  by (simp add: milliunits_def float_parse_eval float_round_eval
      cong: if_weak_cong prod.case_cong_weak split del: if_split)

lemma float_of_str_100: "float_of_str ''100.00'' = Inr (float_of_rat False 10000 100)"
  by (simp add: float_parse_eval)

lemma float_of_rat_100: "float_of_rat False 10000 100 = Finite False 7036874417766400 (- 46)"
  by (simp add: float_round_eval cong: if_weak_cong prod.case_cong_weak split del: if_split)

lemma milliunits_100: "milliunits ''100.00'' = Inr 100000"
  by (simp add: milliunits_def float_of_str_100 float_of_rat_100 float_round_eval
      cong: if_weak_cong prod.case_cong_weak split del: if_split)

text \<open>
  The conversion truncates the binary product, so an amount with two decimals can lose a
  milliunit: 2.01 becomes 2009.
\<close>

lemma float_of_str_201: "float_of_str ''2.01'' = Inr (float_of_rat False 201 100)"
  by (simp add: float_parse_eval)

lemma float_of_rat_201: "float_of_rat False 201 100 = Finite False 4526117625507348 (- 51)"
  by (simp add: float_round_eval cong: if_weak_cong prod.case_cong_weak split del: if_split)

lemma milliunits_201: "milliunits ''2.01'' = Inr 2009"
  by (simp add: milliunits_def float_of_str_201 float_of_rat_201 float_round_eval
      cong: if_weak_cong prod.case_cong_weak split del: if_split)

section \<open>Properties of the CSV importers\<close>

lemma row_get_Inr_iff: "row_get row column = Inr v \<longleftrightarrow> row column = Some v"
  by (simp add: row_get_def split: option.splits)

lemma populateImportIds_other_fields:
  "map (\<lambda>t. t\<lparr>import_id := None\<rparr>) (populateImportIds ts) = map (\<lambda>t. t\<lparr>import_id := None\<rparr>) ts"
  by (rule nth_equalityI) (simp_all add: populateImportIds_nth expected_def)

lemma populateImportIds_cleared:
  "i < length ts \<Longrightarrow> cleared (populateImportIds ts ! i) = cleared (ts ! i)"
  by (simp add: populateImportIds_nth expected_def)

lemma credit_transaction_uncleared:
  assumes "credit_transaction acc row = Inr t" and "row ''Credit'' = Some []" and "row ''Debit'' = Some []"
  shows "cleared t = Some UNCLEARED"
proof -
  have c: "row_get row ''Credit'' = Inr []" and d: "row_get row ''Debit'' = Inr []"
    using assms(2,3) by (simp_all add: row_get_Inr_iff)
  from assms(1) show ?thesis
    unfolding credit_transaction_def
    by (auto simp: bind_Inr_iff c d)
qed

lemma credit_rows_nth:
  "credit_rows acc rows = Inr ts \<Longrightarrow> i < length ts \<Longrightarrow>
     i < length rows \<and> credit_transaction acc (rows ! i) = Inr (ts ! i)"
proof (induction rows arbitrary: ts i)
  case Nil
  then show ?case by simp
next
  case (Cons row rest)
  from Cons.prems obtain t ts' where t: "credit_transaction acc row = Inr t"
    and r: "credit_rows acc rest = Inr ts'" and ts: "ts = t # ts'"
    by (auto split: sum.splits if_splits)
  show ?case
  proof (cases i)
    case 0
    then show ?thesis using t ts by simp
  next
    case (Suc k)
    with Cons.prems(2) ts have "k < length ts'" by simp
    from Cons.IH [OF r this] show ?thesis using Suc ts by simp
  qed
qed

text \<open>
  Claim C10. In a batch that the credit card importer submits, the transaction of a row
  whose Credit and Debit fields are both empty is marked uncleared, whatever the booking
  text of the row is.
\<close>

theorem importCreditCsv_sign_inferred_uncleared:
  assumes "importCreditCsv rows acc dry_run = Inr calls"
    and "batch \<in> set calls" and "i < length batch"
    and "(rows ! i) ''Credit'' = Some []" and "(rows ! i) ''Debit'' = Some []"
  shows "cleared (batch ! i) = Some UNCLEARED"
proof -
  from assms(1) obtain ts where ts: "credit_rows acc rows = Inr ts"
    and calls: "calls = createYnabTransactions (populateImportIds ts) dry_run"
    by (auto simp: importCreditCsv_def bind_Inr_iff)
  from calls assms(2) have batch: "batch = populateImportIds ts"
    by (simp add: createYnabTransactions_def split: if_splits)
  with assms(3) have i: "i < length ts" by simp
  from credit_rows_nth [OF ts i] have "credit_transaction acc (rows ! i) = Inr (ts ! i)" by simp
  then have "cleared (ts ! i) = Some UNCLEARED"
    using assms(4,5) by (rule credit_transaction_uncleared)
  then show ?thesis using batch i by (simp add: populateImportIds_cleared)
qed

text \<open>
  A row that becomes a transaction has the amount \<open>a - fee\<close> of the converted fields:
  the fee is subtracted from the signed amount, whatever the sign is.
\<close>

lemma revolut_transaction_amount:
  assumes "revolut_transaction acc row = Inr (Some t)"
  shows "\<exists>amount_field fee_field a fee.
            row ''Amount'' = Some amount_field \<and> row ''Fee'' = Some fee_field
            \<and> milliunits amount_field = Inr a \<and> milliunits fee_field = Inr fee
            \<and> amount t = a - fee"
  using assms unfolding revolut_transaction_def
  by (auto simp: bind_Inr_iff row_get_Inr_iff split: if_splits)

lemma revolut_rows_unassigned:
  "revolut_rows acc rows = Inr ts \<Longrightarrow> t \<in> set ts \<Longrightarrow> import_id t = None"
proof (induction rows arbitrary: ts)
  case Nil
  then show ?case by simp
next
  case (Cons row rest)
  from Cons.prems(1) obtain r ts' where r: "revolut_transaction acc row = Inr r"
    and rest: "revolut_rows acc rest = Inr ts'"
    and ts: "ts = (case r of None \<Rightarrow> ts' | Some t \<Rightarrow> t # ts')"
    by (auto split: sum.splits)
  show ?case
  proof (cases "t \<in> set ts'")
    case True
    then show ?thesis using Cons.IH rest by blast
  next
    case False
    with Cons.prems(2) ts have "r = Some t" by (cases r) auto
    with r show ?thesis
      unfolding revolut_transaction_def
      by (auto simp: bind_Inr_iff split: if_splits)
  qed
qed

text \<open>
  Claim C3, amended. The importer of the secondary provider's file reverses the
  transactions of the rows once, before the identifiers are assigned, and submits that
  list: the batch is the list of the rows' transactions in reverse row order (newest
  first), with identifiers filled in. It is not reversed a second time.
\<close>

theorem importRevolutCsv_newest_first:
  assumes "importRevolutCsv rows acc dry_run = Inr calls"
  shows "\<exists>transactions.
           revolut_rows acc rows = Inr transactions
           \<and> calls = createYnabTransactions (populateImportIds (rev transactions)) dry_run
           \<and> map (\<lambda>t. t\<lparr>import_id := None\<rparr>) (populateImportIds (rev transactions))
               = rev transactions"
proof -
  from assms obtain ts where ts: "revolut_rows acc rows = Inr ts"
    and calls: "calls = createYnabTransactions (populateImportIds (rev ts)) dry_run"
    by (auto simp: importRevolutCsv_def bind_Inr_iff)
  have "t\<lparr>import_id := None\<rparr> = t" if "import_id t = None" for t :: NewTransaction
    using that by (cases t) simp
  then have "map (\<lambda>t. t\<lparr>import_id := None\<rparr>) (rev ts) = rev ts"
    using revolut_rows_unassigned [OF ts] by (intro map_idI) simp
  then have "map (\<lambda>t. t\<lparr>import_id := None\<rparr>) (populateImportIds (rev ts)) = rev ts"
    by (simp add: populateImportIds_other_fields)
  with ts calls show ?thesis by blast
qed

lemma started_date_eval:
  "fromisoformat_date ''2020-01-13 19:20:21'' = Inr \<lparr>year = 2020, month = 1, day = 13\<rparr>"
  by (simp add: fromisoformat_date_def iso_date_def iso_time_ok_def two_digits_def
      strptime_year_def make_date_def days_in_month_def is_leap_def is_digit_def nat_of_digits_def)

lemma revolut_row_eval:
  "milliunits amount_field = Inr a \<Longrightarrow> milliunits fee_field = Inr fee \<Longrightarrow>
   revolut_transaction ''some_account_id'' (revolut_row description amount_field fee_field)
     = Inr (Some (revolut_tx description (a - fee) None))"
  by (simp add: revolut_transaction_def revolut_row_def revolut_tx_def row_get_def started_date_eval)

lemma float_of_str_5: "float_of_str ''5.00'' = Inr (float_of_rat False 500 100)"
  by (simp add: float_parse_eval)

lemma float_of_rat_5: "float_of_rat False 500 100 = Finite False 5629499534213120 (- 50)"
  by (simp add: float_round_eval cong: if_weak_cong prod.case_cong_weak split del: if_split)

lemma milliunits_5: "milliunits ''5.00'' = Inr 5000"
  by (simp add: milliunits_def float_of_str_5 float_of_rat_5 float_round_eval
      cong: if_weak_cong prod.case_cong_weak split del: if_split)

lemma revolut_fee_example:
  "revolut_transaction ''some_account_id'' (revolut_row ''Test payee'' ''-50.00'' ''2.00'')
     = Inr (Some (revolut_tx ''Test payee'' (- 52000) None))"
  using revolut_row_eval [OF milliunits_m50 milliunits_2, of "''Test payee''"] by simp

text \<open>
  Claim C8. The amount of a row of the secondary provider's file is to be the amount
  minus the fee in minor units. The code subtracts the fee from the signed amount, but it
  converts each field with \<^verbatim>\<open>int(float(field) * 1000)\<close>, and the binary product of 2.01
  and 1000 lies just below 2010: the fee becomes 2009. For a row with the amount 5.00 and
  the fee 2.01 the transaction gets 2991 milliunits, where the exact minor units are
  5000 and 2010 and their difference is 2990.
\<close>

theorem revolut_amount_truncated:
  "revolut_transaction ''some_account_id'' (revolut_row ''Test payee'' ''5.00'' ''2.01'')
     = Inr (Some (revolut_tx ''Test payee'' 2991 None))
   \<and> spec_minor_units ''5.00'' = Some 5000
   \<and> spec_minor_units ''2.01'' = Some 2010
   \<and> amount (revolut_tx ''Test payee'' 2991 None) \<noteq> 5000 - 2010"
proof -
  have "revolut_transaction ''some_account_id'' (revolut_row ''Test payee'' ''5.00'' ''2.01'')
     = Inr (Some (revolut_tx ''Test payee'' 2991 None))"
    using revolut_row_eval [OF milliunits_5 milliunits_201, of "''Test payee''"] by simp
  moreover have "spec_minor_units ''5.00'' = Some 5000"
    by (simp add: spec_minor_units_def parse_decimal_def is_digit_def nat_of_digits_def)
  moreover have "spec_minor_units ''2.01'' = Some 2010"
    by (simp add: spec_minor_units_def parse_decimal_def is_digit_def nat_of_digits_def)
  moreover have "amount (revolut_tx ''Test payee'' 2991 None) \<noteq> 5000 - 2010"
    by (simp add: revolut_tx_def)
  ultimately show ?thesis by simp
qed

lemma revolut_two_rows_eval:
  "importRevolutCsv [revolut_row ''First'' ''-50.00'' ''0.00'', revolut_row ''Second'' ''-50.00'' ''0.00'']
      ''some_account_id'' False
     = Inr [[revolut_tx ''Second'' (- 50000) (Some ''UBS2YNAB:-50000:2020-01-13:1''),
             revolut_tx ''First'' (- 50000) (Some ''UBS2YNAB:-50000:2020-01-13:0'')]]"
proof -
  have rows: "revolut_rows ''some_account_id''
      [revolut_row ''First'' ''-50.00'' ''0.00'', revolut_row ''Second'' ''-50.00'' ''0.00'']
      = Inr [revolut_tx ''First'' (- 50000) None, revolut_tx ''Second'' (- 50000) None]"
    using revolut_row_eval [OF milliunits_m50 milliunits_0, of "''First''"]
      revolut_row_eval [OF milliunits_m50 milliunits_0, of "''Second''"]
    by simp
  have ids: "populateImportIds [revolut_tx ''Second'' (- 50000) None, revolut_tx ''First'' (- 50000) None]
      = [revolut_tx ''Second'' (- 50000) (Some ''UBS2YNAB:-50000:2020-01-13:1''),
         revolut_tx ''First'' (- 50000) (Some ''UBS2YNAB:-50000:2020-01-13:0'')]"
    by (simp add: populateImportIds_def populate_step_def same_date_amount_indicies_def
        revolut_tx_def unassigned_def same_date_amount_def import_id_str_def
        str_int_def isoformat_def zero_pad_def str_nat.simps digit_char_def upt_rec)
  show ?thesis
    unfolding importRevolutCsv_def rows
    by (simp add: ids createYnabTransactions_def)
qed

text \<open>
  Claim C3, as the specification states it: the batch is reversed again after the
  assignment and reaches the ledger oldest first. There is no second reversal in the
  code: for the rows First (older) and Second (newer), the batch is Second, First, as
  the repository's test of the ordinals expects.
\<close>

theorem importRevolutCsv_order_counterexample:
  "importRevolutCsv [revolut_row ''First'' ''-50.00'' ''0.00'', revolut_row ''Second'' ''-50.00'' ''0.00'']
      ''some_account_id'' False
     = Inr [[revolut_tx ''Second'' (- 50000) (Some ''UBS2YNAB:-50000:2020-01-13:1''),
             revolut_tx ''First'' (- 50000) (Some ''UBS2YNAB:-50000:2020-01-13:0'')]]"
  by (rule revolut_two_rows_eval)

theorem importRevolutCsv_newest_first_witness:
  "importRevolutCsv [revolut_row ''First'' ''-50.00'' ''0.00'', revolut_row ''Second'' ''-50.00'' ''0.00'']
      ''some_account_id'' False
     = Inr [[revolut_tx ''Second'' (- 50000) (Some ''UBS2YNAB:-50000:2020-01-13:1''),
             revolut_tx ''First'' (- 50000) (Some ''UBS2YNAB:-50000:2020-01-13:0'')]]
   \<and> (\<exists>transactions.
         revolut_rows ''some_account_id''
           [revolut_row ''First'' ''-50.00'' ''0.00'', revolut_row ''Second'' ''-50.00'' ''0.00'']
           = Inr transactions
       \<and> [[revolut_tx ''Second'' (- 50000) (Some ''UBS2YNAB:-50000:2020-01-13:1''),
            revolut_tx ''First'' (- 50000) (Some ''UBS2YNAB:-50000:2020-01-13:0'')]]
           = createYnabTransactions (populateImportIds (rev transactions)) False
       \<and> map (\<lambda>t. t\<lparr>import_id := None\<rparr>) (populateImportIds (rev transactions))
           = rev transactions)"
  using importRevolutCsv_newest_first [OF revolut_two_rows_eval] revolut_two_rows_eval
  by simp

lemma purchase_date_eval:
  "strptime_dmY ''13.01.2000'' = Inr \<lparr>year = 2000, month = 1, day = 13\<rparr>"
  by (simp add: strptime_dmY_def strptime_day_def strptime_month_def strptime_year_def
      make_date_def days_in_month_def is_leap_def is_digit_def nat_of_digits_def)

lemma credit_row_eval:
  "importCreditCsv [credit_row ''Some payee''] ''some_account_id'' False
     = Inr [[\<lparr>account_id = Some ''some_account_id'', var_date = \<lparr>year = 2000, month = 1, day = 13\<rparr>,
              payee_name = Some ''Some payee'', amount = - 100000, cleared = Some UNCLEARED,
              import_id = Some ''UBS2YNAB:-100000:2000-01-13:0''\<rparr>]]"
proof -
  have t: "credit_transaction ''some_account_id'' (credit_row ''Some payee'')
      = Inr \<lparr>account_id = Some ''some_account_id'', var_date = \<lparr>year = 2000, month = 1, day = 13\<rparr>,
              payee_name = Some ''Some payee'', amount = - 100000, cleared = Some UNCLEARED,
              import_id = None\<rparr>"
    by (simp add: credit_transaction_def credit_row_def row_get_def purchase_date_eval
        milliunits_100 isCreditIncomingTransfer_def)
  have acc: "row_get (credit_row ''Some payee'') ''Account number'' = Inr ''ACC1''"
    by (simp add: credit_row_def row_get_def)
  have rows: "credit_rows ''some_account_id'' [credit_row ''Some payee'']
      = Inr [\<lparr>account_id = Some ''some_account_id'', var_date = \<lparr>year = 2000, month = 1, day = 13\<rparr>,
              payee_name = Some ''Some payee'', amount = - 100000, cleared = Some UNCLEARED,
              import_id = None\<rparr>]"
    by (simp add: t acc)
  show ?thesis
    unfolding importCreditCsv_def rows
    by (simp add: createYnabTransactions_def populateImportIds_def populate_step_def
        same_date_amount_indicies_def unassigned_def same_date_amount_def import_id_str_def
        str_int_def isoformat_def zero_pad_def str_nat.simps digit_char_def upt_rec)
qed

theorem importCreditCsv_sign_inferred_uncleared_witness:
  "importCreditCsv [credit_row ''Some payee''] ''some_account_id'' False
     = Inr [[\<lparr>account_id = Some ''some_account_id'', var_date = \<lparr>year = 2000, month = 1, day = 13\<rparr>,
              payee_name = Some ''Some payee'', amount = - 100000, cleared = Some UNCLEARED,
              import_id = Some ''UBS2YNAB:-100000:2000-01-13:0''\<rparr>]]
   \<and> ([credit_row ''Some payee''] ! 0) ''Credit'' = Some []
   \<and> ([credit_row ''Some payee''] ! 0) ''Debit'' = Some []
   \<and> cleared ([\<lparr>account_id = Some ''some_account_id'', var_date = \<lparr>year = 2000, month = 1, day = 13\<rparr>,
              payee_name = Some ''Some payee'', amount = - 100000, cleared = Some UNCLEARED,
              import_id = Some ''UBS2YNAB:-100000:2000-01-13:0''\<rparr>] ! 0) = Some UNCLEARED"
  using importCreditCsv_sign_inferred_uncleared [OF credit_row_eval, of _ 0] credit_row_eval
  by (simp add: credit_row_def)

section \<open>Properties of the notification importer\<close>

lemma strip_prefix_Cons:
  "strip_prefix (c # p) s = Some r \<Longrightarrow> \<exists>s'. s = c # s'"
  by (cases s) (auto simp: strip_prefix_def split: if_splits)

lemma case_strip_prefix_Cons:
  "(case strip_prefix (c # p) s of None \<Rightarrow> None | Some r \<Rightarrow> f r) = Some a \<Longrightarrow> \<exists>s'. s = c # s'"
  by (cases "strip_prefix (c # p) s") (auto dest: strip_prefix_Cons)

lemma inflow_starts:
  "UBS_CREDIT_CARD_INFLOW_REGEXP s = Some a \<Longrightarrow> \<exists>s'. s = CHR ''A'' # s'"
  unfolding UBS_CREDIT_CARD_INFLOW_REGEXP_def by (rule case_strip_prefix_Cons)

lemma outflow_starts:
  "UBS_CREDIT_CARD_OUTFLOW_REGEXP s = Some a \<Longrightarrow> \<exists>s'. s = CHR ''C'' # s'"
  unfolding UBS_CREDIT_CARD_OUTFLOW_REGEXP_def by (rule case_strip_prefix_Cons)

lemma debit_starts:
  "UBS_DEBIT_CARD_REGEXP s = Some a \<Longrightarrow> \<exists>s'. s = CHR ''Y'' # s'"
  unfolding UBS_DEBIT_CARD_REGEXP_def by (rule case_strip_prefix_Cons)

lemma inflow_not_outflow:
  assumes "UBS_CREDIT_CARD_INFLOW_REGEXP s = Some a"
  shows "UBS_CREDIT_CARD_OUTFLOW_REGEXP s = None"
proof (cases "UBS_CREDIT_CARD_OUTFLOW_REGEXP s")
  case None
  then show ?thesis .
next
  case (Some b)
  from inflow_starts [OF assms] outflow_starts [OF Some] show ?thesis by auto
qed

lemma debit_not_outflow:
  assumes "UBS_DEBIT_CARD_REGEXP s = Some a"
  shows "UBS_CREDIT_CARD_OUTFLOW_REGEXP s = None"
proof (cases "UBS_CREDIT_CARD_OUTFLOW_REGEXP s")
  case None
  then show ?thesis .
next
  case (Some b)
  from debit_starts [OF assms] outflow_starts [OF Some] show ?thesis by auto
qed

lemma debit_not_inflow:
  assumes "UBS_DEBIT_CARD_REGEXP s = Some a"
  shows "UBS_CREDIT_CARD_INFLOW_REGEXP s = None"
proof (cases "UBS_CREDIT_CARD_INFLOW_REGEXP s")
  case None
  then show ?thesis .
next
  case (Some b)
  from debit_starts [OF assms] inflow_starts [OF Some] show ?thesis by auto
qed

lemma round_to_double_zero: "round_to_double 0 den = (0, 0)"
  by (simp add: round_to_double_def)

lemma float_of_rat_zero: "float_of_rat neg 0 den = Finite neg 0 0"
  by (simp add: float_of_rat_def round_to_double_zero bitlen.simps)

lemma float_of_rat_sign:
  "(\<exists>m e. float_of_rat neg num den = Finite neg m e) \<or> float_of_rat neg num den = Infinity neg"
  by (cases "round_to_double num den") (simp add: float_of_rat_def)

lemma float_times_zero: "float_times (Finite neg 0 e) k = Finite neg 0 0"
  by (simp add: float_of_rat_zero)

lemma float_times_sign:
  "(\<exists>m' e'. float_times (Finite neg m e) k = Finite neg m' e')
   \<or> float_times (Finite neg m e) k = Infinity neg"
  using float_of_rat_sign [of neg] by simp

lemma int_of_float_neg: "int_of_float (Finite True m e) = Inr a \<Longrightarrow> a \<le> 0"
  by (auto simp: Let_def)

lemma int_of_float_times_positive:
  assumes "int_of_float (float_times x k) = Inr a" and "0 < a"
  shows "float_is_positive x \<and> \<not> float_is_zero x"
proof (cases x)
  case (Finite neg m e)
  have "m \<noteq> 0"
  proof
    assume "m = 0"
    then have "float_times x k = Finite neg 0 0"
      using Finite float_times_zero by simp
    with assms show False by (auto split: if_splits)
  qed
  moreover have "\<not> neg"
  proof
    assume neg
    with float_times_sign [of neg m e k] Finite
    have "(\<exists>m' e'. float_times x k = Finite True m' e') \<or> float_times x k = Infinity True"
      by simp
    then show False
    proof
      assume "\<exists>m' e'. float_times x k = Finite True m' e'"
      then obtain m' e' where "float_times x k = Finite True m' e'" by blast
      with assms(1) have "int_of_float (Finite True m' e') = Inr a" by simp
      from int_of_float_neg [OF this] assms(2) show False by simp
    next
      assume "float_times x k = Infinity True"
      with assms(1) show False by simp
    qed
  qed
  ultimately show ?thesis using Finite by simp
next
  case (Infinity neg)
  with assms show ?thesis by simp
qed

lemma milliunits_positive:
  assumes "milliunits s = Inr a" and "0 < a"
  shows "\<exists>x. float_of_str s = Inr x \<and> float_is_positive x \<and> \<not> float_is_zero x
          \<and> int_of_float (float_times x 1000) = Inr a"
proof -
  from assms(1) obtain x where x: "float_of_str s = Inr x"
    and a: "int_of_float (float_times x 1000) = Inr a"
    by (auto simp: milliunits_def bind_Inr_iff)
  from int_of_float_times_positive [OF a assms(2)] x a show ?thesis by blast
qed

lemma notification_loop_error:
  "i \<in> set positions \<Longrightarrow> notification_step account_map notifications i = Inl e \<Longrightarrow>
   \<exists>e'. notification_loop account_map notifications positions transactions = Inl e'"
proof (induction positions arbitrary: transactions)
  case Nil
  then show ?case by simp
next
  case (Cons p rest)
  show ?case
  proof (cases "notification_step account_map notifications p")
    case (Inl e')
    then show ?thesis by simp
  next
    case (Inr new)
    with Cons.prems have "i \<in> set rest" by auto
    from Cons.IH [OF this Cons.prems(2)] Inr show ?thesis by simp
  qed
qed

lemma notification_step_unmapped:
  assumes "(\<exists>amt payee. UBS_CREDIT_CARD_OUTFLOW_REGEXP (message (notifications ! i)) = Some (amt, alias, payee))
        \<or> (\<exists>action amt. UBS_DEBIT_CARD_REGEXP (message (notifications ! i)) = Some (alias, action, amt))
        \<or> (UBS_CREDIT_CARD_INFLOW_REGEXP (message (notifications ! i)) = Some alias
            \<and> (\<exists>x. debit_sum_at notifications i = Inr x \<and> float_is_positive x))"
    and "account_map alias = None"
  shows "\<exists>e. notification_step account_map notifications i = Inl e"
proof -
  have l: "lookup_account account_map alias = Inl KeyError"
    using assms(2) by (simp add: lookup_account_def)
  from assms(1) consider
    (outflow) amt payee where "UBS_CREDIT_CARD_OUTFLOW_REGEXP (message (notifications ! i)) = Some (amt, alias, payee)"
    | (debit) action amt where "UBS_DEBIT_CARD_REGEXP (message (notifications ! i)) = Some (alias, action, amt)"
    | (inflow) x where "UBS_CREDIT_CARD_INFLOW_REGEXP (message (notifications ! i)) = Some alias"
        "debit_sum_at notifications i = Inr x" "float_is_positive x"
    by blast
  then show ?thesis
  proof cases
    case outflow
    then show ?thesis
      by (cases "float_of_str (remove_apostrophes amt)") (simp_all add: notification_step_def l)
  next
    case debit
    then show ?thesis
      using debit_not_outflow [OF debit] debit_not_inflow [OF debit]
      by (cases "float_of_str (remove_apostrophes amt)") (simp_all add: notification_step_def l)
  next
    case inflow
    then show ?thesis
      using inflow_not_outflow [OF inflow(1)]
      by (simp add: notification_step_def l)
  qed
qed

text \<open>
  Claim C9, amended. When the list holds a card charge or an account notification whose
  alias is not a key of the account map, or an inflow notification with such a card for
  which a neighbour supplies a positive amount, the import ends with an exception:
  nothing is submitted to the ledger.
\<close>

theorem unmapped_alias_is_fatal:
  assumes "i < length notifications"
    and "(\<exists>amt payee. UBS_CREDIT_CARD_OUTFLOW_REGEXP (message (notifications ! i)) = Some (amt, alias, payee))
        \<or> (\<exists>action amt. UBS_DEBIT_CARD_REGEXP (message (notifications ! i)) = Some (alias, action, amt))
        \<or> (UBS_CREDIT_CARD_INFLOW_REGEXP (message (notifications ! i)) = Some alias
            \<and> (\<exists>x. debit_sum_at notifications i = Inr x \<and> float_is_positive x))"
    and "account_map alias = None"
  shows "\<exists>e. importUbsFromEmail notifications account_map dry_run = Inl e"
proof -
  from notification_step_unmapped [of notifications i "alias" account_map] assms(2,3)
  obtain e where e: "notification_step account_map notifications i = Inl e" by blast
  have "i \<in> set [0..<length notifications]" using assms(1) by simp
  from notification_loop_error [OF this e]
  obtain e' where "notification_loop account_map notifications [0..<length notifications] [] = Inl e'"
    by blast
  moreover have "notifications \<noteq> []" using assms(1) by auto
  ultimately show ?thesis by (simp add: importUbsFromEmail_def)
qed

text \<open>
  Claim C2. For an inflow notification \<open>n\<close> and a neighbour \<open>nn\<close> that is a debit
  notification of an account (it matches the third pattern with the action
  \<^verbatim>\<open>debited\<close>), the neighbour passes the importer's test iff the absolute difference of
  the two timestamps is less than 60 seconds (here in microseconds). At exactly 60
  seconds it does not pass, at 59 seconds it does.
\<close>

theorem companion_window:
  assumes "UBS_DEBIT_CARD_REGEXP (message nn) = Some (account, ''debited'', amt)"
  shows "(is_companion n nn \<longleftrightarrow> \<bar>datetime_sub (date nn) (date n)\<bar> < 60 * 1000000)
       \<and> (\<bar>datetime_sub (date nn) (date n)\<bar> = 60 * 1000000 \<longrightarrow> \<not> is_companion n nn)
       \<and> (\<bar>datetime_sub (date nn) (date n)\<bar> = 59 * 1000000 \<longrightarrow> is_companion n nn)"
  by (simp add: is_companion_def MAX_CREDIT_CARD_TRANSFT_TIMEDELTA_def assms)

lemma debit_sum_at_none:
  assumes "i = 0 \<or> \<not> is_companion (notifications ! i) (notifications ! (i - 1))"
    and "i + 1 = length notifications \<or> \<not> is_companion (notifications ! i) (notifications ! (i + 1))"
  shows "debit_sum_at notifications i = Inr (Finite False 0 0)"
proof -
  have b: "debit_sum_before notifications i = Inr (Finite False 0 0)"
    using assms(1) by (auto simp: debit_sum_before_def)
  show ?thesis
    using assms(2) by (auto simp: debit_sum_at_def b)
qed

lemma inflow_step_dropped:
  assumes "UBS_CREDIT_CARD_INFLOW_REGEXP (message (notifications ! i)) = Some card_alias"
    and "i = 0 \<or> \<not> is_companion (notifications ! i) (notifications ! (i - 1))"
    and "i + 1 = length notifications \<or> \<not> is_companion (notifications ! i) (notifications ! (i + 1))"
  shows "notification_step account_map notifications i = Inr []"
  using inflow_not_outflow [OF assms(1)] assms(1) debit_sum_at_none [OF assms(2,3)]
  by (simp add: notification_step_def)

text \<open>
  Claim C5. An inflow notification at position \<open>i\<close> for which neither the notification
  before it nor the one after it passes the test (or there is none) appends no
  transaction and raises nothing, so no transaction with a zero or invented amount is
  made for it; the loop goes on with the remaining positions and the transactions it had.
\<close>

theorem uncorrelated_inflow_dropped:
  assumes "i < length notifications"
    and "UBS_CREDIT_CARD_INFLOW_REGEXP (message (notifications ! i)) = Some card_alias"
    and "i = 0 \<or> \<not> is_companion (notifications ! i) (notifications ! (i - 1))"
    and "i + 1 = length notifications \<or> \<not> is_companion (notifications ! i) (notifications ! (i + 1))"
  shows "notification_step account_map notifications i = Inr []
       \<and> notification_loop account_map notifications (i # rest) transactions
           = notification_loop account_map notifications rest transactions"
proof -
  have "notification_step account_map notifications i = Inr []"
    using assms(2,3,4) by (rule inflow_step_dropped)
  then show ?thesis by simp
qed

lemma debit_sum_at_before:
  assumes "0 < i" and "is_companion (notifications ! i) (notifications ! (i - 1))"
    and "companion_sum (notifications ! (i - 1)) = Inr x" and "\<not> float_is_zero x"
  shows "debit_sum_at notifications i = Inr x"
  using assms by (simp add: debit_sum_at_def debit_sum_before_def)

lemma debit_sum_at_after:
  assumes "i = 0 \<or> \<not> is_companion (notifications ! i) (notifications ! (i - 1))"
    and "i + 1 < length notifications"
    and "is_companion (notifications ! i) (notifications ! (i + 1))"
    and "companion_sum (notifications ! (i + 1)) = Inr x"
  shows "debit_sum_at notifications i = Inr x"
proof -
  have b: "debit_sum_before notifications i = Inr (Finite False 0 0)"
    using assms(1) by (auto simp: debit_sum_before_def)
  have "i < length notifications - 1" using assms(2) by arith
  then show ?thesis
    using assms(3,4) by (simp add: debit_sum_at_def b)
qed

lemma inflow_step_with_sum:
  assumes "UBS_CREDIT_CARD_INFLOW_REGEXP (message (notifications ! i)) = Some card_alias"
    and "debit_sum_at notifications i = Inr x" and "float_is_positive x"
    and "lookup_account account_map card_alias = Inr acc"
    and "int_of_float (float_times x 1000) = Inr a"
  shows "notification_step account_map notifications i
     = Inr [\<lparr>account_id = Some acc, var_date = datetime_date (date (notifications ! i)),
             payee_name = None, amount = a, cleared = None, import_id = None\<rparr>]"
  using inflow_not_outflow [OF assms(1)] assms
  by (simp add: notification_step_def)

text \<open>
  Claim C7. Let \<open>n\<close> be an inflow notification of a mapped card and \<open>c\<close> a debit
  notification that passes the test for \<open>n\<close>, with a positive amount \<open>a\<close> in milliunits.
  In a list where \<open>c\<close> stands just before \<open>n\<close>, and in a list where \<open>c\<close> stands just after
  \<open>n\<close> and the notification before \<open>n\<close> does not pass the test, the importer appends
  the same single transaction for \<open>n\<close>: the amount \<open>a\<close>, the date of \<open>n\<close>, the account of
  the card.
\<close>

theorem correlation_symmetric:
  assumes inflow: "UBS_CREDIT_CARD_INFLOW_REGEXP (message n) = Some card_alias"
    and debit: "UBS_DEBIT_CARD_REGEXP (message c) = Some (account, action, amt)"
    and qualifies: "is_companion n c"
    and magnitude: "milliunits (remove_apostrophes amt) = Inr a" "0 < a"
    and mapped: "lookup_account account_map card_alias = Inr acc"
    and before: "0 < i" "i < length before" "before ! i = n" "before ! (i - 1) = c"
    and after: "j + 1 < length after" "after ! j = n" "after ! (j + 1) = c"
      "j = 0 \<or> \<not> is_companion n (after ! (j - 1))"
  shows "notification_step account_map before i = notification_step account_map after j
       \<and> notification_step account_map after j
           = Inr [\<lparr>account_id = Some acc, var_date = datetime_date (date n),
                   payee_name = None, amount = a, cleared = None, import_id = None\<rparr>]"
proof -
  from milliunits_positive [OF magnitude] obtain x
    where x: "float_of_str (remove_apostrophes amt) = Inr x" "float_is_positive x"
      "\<not> float_is_zero x" "int_of_float (float_times x 1000) = Inr a"
    by blast
  have s: "companion_sum c = Inr x"
    using debit x(1) by (simp add: companion_sum_def)
  have sb: "debit_sum_at before i = Inr x"
    using before qualifies s x(3) by (intro debit_sum_at_before) simp_all
  have sa: "debit_sum_at after j = Inr x"
    using after qualifies s by (intro debit_sum_at_after) simp_all
  have "notification_step account_map before i
      = Inr [\<lparr>account_id = Some acc, var_date = datetime_date (date (before ! i)),
             payee_name = None, amount = a, cleared = None, import_id = None\<rparr>]"
    using inflow before(3) sb x(2) mapped x(4) by (intro inflow_step_with_sum) simp_all
  moreover have "notification_step account_map after j
      = Inr [\<lparr>account_id = Some acc, var_date = datetime_date (date (after ! j)),
             payee_name = None, amount = a, cleared = None, import_id = None\<rparr>]"
    using inflow after(2) sa x(2) mapped x(4) by (intro inflow_step_with_sum) simp_all
  ultimately show ?thesis using before(3) after(2) by simp
qed

lemmas re_eval = UBS_DEBIT_CARD_REGEXP_def UBS_CREDIT_CARD_INFLOW_REGEXP_def
  UBS_CREDIT_CARD_OUTFLOW_REGEXP_def strip_prefix_def debit_tail_def debit_action_def
  re_amount_def four_digits_def is_digit_def apostrophe_def

lemma credit_notification_inflow:
  "UBS_CREDIT_CARD_INFLOW_REGEXP (message (credit_notification dt)) = Some ''1234''"
  by (simp add: credit_notification_def re_eval)

lemma debit_notification_debit:
  "UBS_DEBIT_CARD_REGEXP (message (debit_notification dt)) = Some (''Acc'', ''debited'', ''123.45'')"
  by (simp add: debit_notification_def re_eval)

lemma charge_notification_outflow:
  "UBS_CREDIT_CARD_OUTFLOW_REGEXP (message (charge_notification dt)) = Some (''56.78'', ''1234'', ''PAYEE'')"
  by (simp add: charge_notification_def re_eval)

lemma datetime_microseconds_at_time:
  "datetime_microseconds (at_time m s) = 63871495200000000 + (int m * 60 + int s) * 1000000"
  by (simp add: datetime_microseconds_def at_time_def toordinal_def days_before_year_def
      days_before_month_def algebra_simps)

lemma datetime_sub_at_time:
  "datetime_sub (at_time m' s') (at_time m s)
     = ((int m' * 60 + int s') - (int m * 60 + int s)) * 1000000"
  by (simp add: datetime_sub_def datetime_microseconds_at_time algebra_simps)

lemma is_companion_at_time:
  "is_companion (credit_notification (at_time m s)) (debit_notification (at_time m' s'))
     \<longleftrightarrow> \<bar>datetime_sub (at_time m' s') (at_time m s)\<bar> < 60000000"
  by (simp add: is_companion_def debit_notification_debit MAX_CREDIT_CARD_TRANSFT_TIMEDELTA_def)
    (simp add: credit_notification_def debit_notification_def)

lemma is_companion_59_after:
  "is_companion (credit_notification (at_time 0 0)) (debit_notification (at_time 0 59))"
  by (simp add: is_companion_at_time datetime_sub_at_time)

lemma is_companion_59_before:
  "is_companion (credit_notification (at_time 1 0)) (debit_notification (at_time 0 1))"
  by (simp add: is_companion_at_time datetime_sub_at_time)

lemma not_is_companion_60:
  "\<not> is_companion (credit_notification (at_time 0 0)) (debit_notification (at_time 1 0))"
  by (simp add: is_companion_at_time datetime_sub_at_time)

theorem companion_window_witness:
  "UBS_DEBIT_CARD_REGEXP (message (debit_notification (at_time 0 59)))
      = Some (''Acc'', ''debited'', ''123.45'')
   \<and> UBS_DEBIT_CARD_REGEXP (message (debit_notification (at_time 1 0)))
      = Some (''Acc'', ''debited'', ''123.45'')
   \<and> \<bar>datetime_sub (date (debit_notification (at_time 0 59))) (date (credit_notification (at_time 0 0)))\<bar>
        = 59 * 1000000
   \<and> is_companion (credit_notification (at_time 0 0)) (debit_notification (at_time 0 59))
   \<and> \<bar>datetime_sub (date (debit_notification (at_time 1 0))) (date (credit_notification (at_time 0 0)))\<bar>
        = 60 * 1000000
   \<and> \<not> is_companion (credit_notification (at_time 0 0)) (debit_notification (at_time 1 0))"
proof -
  have a: "\<bar>datetime_sub (date (debit_notification (at_time 0 59))) (date (credit_notification (at_time 0 0)))\<bar>
        = 59 * 1000000"
    by (simp add: credit_notification_def debit_notification_def datetime_sub_at_time)
  have b: "\<bar>datetime_sub (date (debit_notification (at_time 1 0))) (date (credit_notification (at_time 0 0)))\<bar>
        = 60 * 1000000"
    by (simp add: credit_notification_def debit_notification_def datetime_sub_at_time)
  from companion_window [of "debit_notification (at_time 0 59)" "''Acc''" "''123.45''"
      "credit_notification (at_time 0 0)"]
    companion_window [of "debit_notification (at_time 1 0)" "''Acc''" "''123.45''"
      "credit_notification (at_time 0 0)"]
    a b debit_notification_debit
  show ?thesis by simp
qed

theorem uncorrelated_inflow_dropped_witness:
  "0 < length [credit_notification (at_time 0 0), debit_notification (at_time 1 0)]
   \<and> UBS_CREDIT_CARD_INFLOW_REGEXP
        (message ([credit_notification (at_time 0 0), debit_notification (at_time 1 0)] ! 0))
        = Some ''1234''
   \<and> \<not> is_companion (credit_notification (at_time 0 0)) (debit_notification (at_time 1 0))
   \<and> notification_step test_account_map
        [credit_notification (at_time 0 0), debit_notification (at_time 1 0)] 0 = Inr []
   \<and> notification_loop test_account_map
        [credit_notification (at_time 0 0), debit_notification (at_time 1 0)] [0, 1] []
       = notification_loop test_account_map
        [credit_notification (at_time 0 0), debit_notification (at_time 1 0)] [1] []"
  using uncorrelated_inflow_dropped [of 0
      "[credit_notification (at_time 0 0), debit_notification (at_time 1 0)]" "''1234''"
      test_account_map "[1]" "[]"]
    credit_notification_inflow not_is_companion_60
  by simp

lemma float_of_str_12345: "float_of_str ''123.45'' = Inr (float_of_rat False 12345 100)"
  by (simp add: float_parse_eval)

lemma float_of_rat_12345: "float_of_rat False 12345 100 = Finite False 8687021468732621 (- 46)"
  by (simp add: float_round_eval cong: if_weak_cong prod.case_cong_weak split del: if_split)

lemma milliunits_12345: "milliunits ''123.45'' = Inr 123450"
  by (simp add: milliunits_def float_of_str_12345 float_of_rat_12345 float_round_eval
      cong: if_weak_cong prod.case_cong_weak split del: if_split)

lemma remove_apostrophes_12345: "remove_apostrophes ''123.45'' = ''123.45''"
  by (simp add: apostrophe_def)

theorem correlation_symmetric_witness:
  "UBS_CREDIT_CARD_INFLOW_REGEXP (message (credit_notification (at_time 1 0))) = Some ''1234''
   \<and> UBS_DEBIT_CARD_REGEXP (message (debit_notification (at_time 0 1)))
       = Some (''Acc'', ''debited'', ''123.45'')
   \<and> is_companion (credit_notification (at_time 1 0)) (debit_notification (at_time 0 1))
   \<and> milliunits (remove_apostrophes ''123.45'') = Inr 123450
   \<and> lookup_account test_account_map ''1234'' = Inr ''credit_account_id''
   \<and> notification_step test_account_map
        [debit_notification (at_time 0 1), credit_notification (at_time 1 0)] 1
       = notification_step test_account_map
        [credit_notification (at_time 1 0), debit_notification (at_time 0 1)] 0
   \<and> notification_step test_account_map
        [credit_notification (at_time 1 0), debit_notification (at_time 0 1)] 0
       = Inr [\<lparr>account_id = Some ''credit_account_id'',
               var_date = \<lparr>year = 2025, month = 1, day = 2\<rparr>,
               payee_name = None, amount = 123450, cleared = None, import_id = None\<rparr>]"
proof -
  have m: "milliunits (remove_apostrophes ''123.45'') = Inr 123450"
    by (simp only: remove_apostrophes_12345 milliunits_12345)
  have l: "lookup_account test_account_map ''1234'' = Inr ''credit_account_id''"
    by (simp add: lookup_account_def test_account_map_def)
  have d: "datetime_date (date (credit_notification (at_time 1 0))) = \<lparr>year = 2025, month = 1, day = 2\<rparr>"
    by (simp add: datetime_date_def credit_notification_def at_time_def)
  from correlation_symmetric [OF credit_notification_inflow debit_notification_debit
      is_companion_59_before m _ l,
      of 1 "[debit_notification (at_time 0 1), credit_notification (at_time 1 0)]"
         0 "[credit_notification (at_time 1 0), debit_notification (at_time 0 1)]"]
    credit_notification_inflow debit_notification_debit is_companion_59_before m l d
  show ?thesis by simp
qed

lemma populateImportIds_Nil: "populateImportIds [] = []"
  by (simp add: populateImportIds_def)

text \<open>
  Claim C9, as the specification states it, holds for every recognised notification. It
  fails for an inflow notification without companion: the importer looks the card up
  only after it has found an amount, so the notification is skipped although its card is
  not in the map, no exception is raised, and the (empty) batch is submitted. The
  repository's test of a lone inflow notification runs with an empty map.
\<close>

theorem unmapped_inflow_skipped_counterexample:
  "UBS_CREDIT_CARD_INFLOW_REGEXP (message (credit_notification (at_time 0 0))) = Some ''1234''
   \<and> no_accounts ''1234'' = None
   \<and> importUbsFromEmail [credit_notification (at_time 0 0)] no_accounts False = Inr [[]]"
proof -
  have "notification_step no_accounts [credit_notification (at_time 0 0)] 0 = Inr []"
    by (rule inflow_step_dropped [where card_alias = "''1234''"])
      (simp_all add: credit_notification_inflow)
  then show ?thesis
    by (simp add: importUbsFromEmail_def credit_notification_inflow no_accounts_def
        populateImportIds_Nil createYnabTransactions_def)
qed

theorem unmapped_alias_is_fatal_witness:
  "0 < length [charge_notification (at_time 0 0)]
   \<and> UBS_CREDIT_CARD_OUTFLOW_REGEXP (message ([charge_notification (at_time 0 0)] ! 0))
       = Some (''56.78'', ''1234'', ''PAYEE'')
   \<and> no_accounts ''1234'' = None
   \<and> (\<exists>e. importUbsFromEmail [charge_notification (at_time 0 0)] no_accounts False = Inl e)"
  using unmapped_alias_is_fatal [of 0 "[charge_notification (at_time 0 0)]" "''1234''" no_accounts False]
    charge_notification_outflow
  by (simp add: no_accounts_def)

end
